theory Spec2Isabelle
  imports Main
begin

section \<open>The background script of the extension: values and text\<close>

text \<open>
  The background script (\<^verbatim>\<open>src/extension/popup.js\<close>, from the line
  \<^verbatim>\<open>// Simplified background script for LegalGuardianGPT\<close> on) answers messages of the
  user interface. It keeps a cache of backend answers, calls the backend with a deadline,
  and substitutes fixed content when the backend fails.

  A JavaScript string is modelled as the list of its characters, a \<^typ>\<open>string\<close>; a
  \<^typ>\<open>char\<close> stands for a code point from 0 to 255 (ASCII and Latin-1), which covers every
  literal of the script.
\<close>

subsection \<open>Values that cross the message channel\<close>

text \<open>
  Everything the script receives from the backend (\<^verbatim>\<open>response.json()\<close>) or answers with
  (\<^verbatim>\<open>sendResponse\<close>) is a JSON value. An object is the list of its properties in insertion
  order, with distinct names. A whole number of absolute value below \<open>10\<^sup>2\<^sup>1\<close> is \<open>JInt\<close>;
  any other number is \<open>JDec\<close> of the text JavaScript prints for it (\<^verbatim>\<open>0.85\<close> is
  \<open>JDec ''0.85''\<close>, \<^verbatim>\<open>1e+21\<close> is \<open>JDec ''1e+21''\<close>): the script never calculates with such a
  number, it only passes it on or prints it.
\<close>

datatype json =
    JNull
  | JBool bool
  | JInt int
  | JDec string
  | JStr string
  | JArr "json list"
  | JObj "(string \<times> json) list"

text \<open>Reading a property \<^verbatim>\<open>v.name\<close>: \<open>None\<close> is JavaScript's \<^verbatim>\<open>undefined\<close>.\<close>

fun get_prop :: "json \<Rightarrow> string \<Rightarrow> json option" where
  "get_prop (JObj kvs) name = map_of kvs name"
| "get_prop _ name = None"

subsection \<open>Numbers as text\<close>

text \<open>
  Template literals such as \<^verbatim>\<open>`search_${query}_${nResults}`\<close> print a number. A whole
  number of absolute value below \<open>10\<^sup>2\<^sup>1\<close> is printed in decimal digits, with a minus sign
  when negative; this is the range of the whole numbers of the model.
\<close>

definition digit_char :: "nat \<Rightarrow> char" where
  "digit_char d = char_of (48 + d)"

fun show_nat :: "nat \<Rightarrow> string" where
  "show_nat n = (if n < 10 then [digit_char n] else show_nat (n div 10) @ [digit_char (n mod 10)])"

declare show_nat.simps [simp del]

definition show_int :: "int \<Rightarrow> string" where
  "show_int i = (if i < 0 then CHR ''-'' # show_nat (nat (- i)) else show_nat (nat i))"

subsection \<open>Lower case and substring search\<close>

text \<open>
  \<^verbatim>\<open>String.prototype.toLowerCase\<close> on code points below 256: the letters A to Z and the
  Latin-1 capitals (192 to 222, without the multiplication sign 215) move up by 32.
\<close>

definition lower_char :: "char \<Rightarrow> char" where
  "lower_char c =
     (let n = (of_char c :: nat)
      in if (65 \<le> n \<and> n \<le> 90) \<or> (192 \<le> n \<and> n \<le> 222 \<and> n \<noteq> 215)
         then char_of (n + 32) else c)"

definition toLowerCase :: "string \<Rightarrow> string" where
  "toLowerCase s = map lower_char s"

text \<open>
  \<^verbatim>\<open>s.startsWith(q)\<close> and \<^verbatim>\<open>s.includes(q)\<close>: \<open>q\<close> occurs in \<open>s\<close> as a contiguous run. The
  empty string occurs in every string.
\<close>

fun starts_with :: "string \<Rightarrow> string \<Rightarrow> bool" where
  "starts_with s [] = True"
| "starts_with [] (q # qs) = False"
| "starts_with (c # cs) (q # qs) = (c = q \<and> starts_with cs qs)"

fun str_includes :: "string \<Rightarrow> string \<Rightarrow> bool" where
  "str_includes [] q = (q = [])"
| "str_includes (c # cs) q = (starts_with (c # cs) q \<or> str_includes cs q)"

subsection \<open>Array.prototype.slice(0, n)\<close>

text \<open>
  \<^verbatim>\<open>xs.slice(0, n)\<close> keeps the first \<open>n\<close> elements; a negative \<open>n\<close> counts from the end
  (all but the last \<open>-n\<close> elements).
\<close>

definition slice0 :: "'a list \<Rightarrow> int \<Rightarrow> 'a list" where
  "slice0 xs n = (if n < 0 then take (nat (int (length xs) + n)) xs else take (nat n) xs)"

text \<open>\<^verbatim>\<open>s.substring(0, n)\<close> for a literal \<open>n\<close> that is not negative.\<close>

definition substring0 :: "string \<Rightarrow> nat \<Rightarrow> string" where
  "substring0 s n = take n s"

section \<open>The fallback provider\<close>

record clause =
  clause_text :: string
  clause_type :: string
  similarity_score :: json
  source :: string
  document_title :: string

text \<open>The literal \<^verbatim>\<open>sampleClauses\<close> of \<^verbatim>\<open>getFallbackClauses\<close>.\<close>

definition sampleClauses :: "clause list" where
  "sampleClauses =
    [ \<lparr> clause_text = ''Confidential Information means all information disclosed by one party to another that is marked confidential or should reasonably be considered confidential.'',
        clause_type = ''Confidentiality'',
        similarity_score = JDec ''0.85'',
        source = ''fallback'', document_title = ''Sample NDA'' \<rparr>,
      \<lparr> clause_text = ''This Agreement may be terminated by either party upon thirty (30) days written notice to the other party.'',
        clause_type = ''Termination'',
        similarity_score = JDec ''0.72'',
        source = ''fallback'', document_title = ''Sample Agreement'' \<rparr>,
      \<lparr> clause_text = ''Neither party shall be liable for any indirect, special, incidental, or consequential damages.'',
        clause_type = ''Liability'',
        similarity_score = JDec ''0.65'',
        source = ''fallback'', document_title = ''Sample Contract'' \<rparr> ]"

text \<open>The predicate of the \<^verbatim>\<open>filter\<close> call, for the lower-cased query.\<close>

definition clause_matches :: "string \<Rightarrow> clause \<Rightarrow> bool" where
  "clause_matches queryLower c =
     (str_includes (toLowerCase (clause_text c)) queryLower \<or>
      str_includes (toLowerCase (clause_type c)) queryLower)"

text \<open>
  The body of \<^verbatim>\<open>getFallbackClauses\<close> after the catalog literal, for any catalog:
  filter, slice, and the whole catalog sliced when nothing is left.
\<close>

definition fallback_from :: "clause list \<Rightarrow> string \<Rightarrow> int \<Rightarrow> clause list" where
  "fallback_from catalog query nResults =
     (let queryLower = toLowerCase query;
          filtered = slice0 (filter (clause_matches queryLower) catalog) nResults
      in if length filtered > 0 then filtered else slice0 catalog nResults)"

definition getFallbackClauses :: "string \<Rightarrow> int \<Rightarrow> clause list" where
  "getFallbackClauses query nResults = fallback_from sampleClauses query nResults"

text \<open>A clause as the object the script returns.\<close>

definition clause_json :: "clause \<Rightarrow> json" where
  "clause_json c =
     JObj [ (''text'', JStr (clause_text c)),
            (''clause_type'', JStr (clause_type c)),
            (''similarity_score'', similarity_score c),
            (''metadata'', JObj [ (''source'', JStr (source c)),
                                 (''document_title'', JStr (document_title c)) ]) ]"

section \<open>The cache\<close>

text \<open>
  \<^verbatim>\<open>const cache = new Map(); const CACHE_TTL = 60000;\<close> An entry is the object
  \<^verbatim>\<open>{ data, timestamp }\<close> that \<^verbatim>\<open>cache.set\<close> stores; times are milliseconds as
  \<^verbatim>\<open>Date.now()\<close> gives them.
\<close>

record entry =
  data :: json
  timestamp :: int

type_synonym cache = "string \<rightharpoonup> entry"

definition CACHE_TTL :: int where
  "CACHE_TTL = 60000"

text \<open>
  Every cached operation starts with the same two statements,
  \<^verbatim>\<open>const cached = cache.get(cacheKey);
  if (cached && (Date.now() - cached.timestamp) < CACHE_TTL) return cached.data;\<close>
  \<open>cached_fresh\<close> is what they return, \<open>None\<close> when the operation goes on.
\<close>

definition cached_fresh :: "cache \<Rightarrow> string \<Rightarrow> int \<Rightarrow> json option" where
  "cached_fresh c cacheKey now_ms =
     (case c cacheKey of
        None \<Rightarrow> None
      | Some cached \<Rightarrow> if now_ms - timestamp cached < CACHE_TTL then Some (data cached) else None)"

text \<open>\<^verbatim>\<open>cache.set(cacheKey, { data: d, timestamp: Date.now() })\<close>\<close>

definition cache_set :: "cache \<Rightarrow> string \<Rightarrow> json \<Rightarrow> int \<Rightarrow> cache" where
  "cache_set c cacheKey d now_ms = c(cacheKey \<mapsto> \<lparr> data = d, timestamp = now_ms \<rparr>)"

section \<open>The bounded executor\<close>

text \<open>
  \<^verbatim>\<open>fetchWithTimeout\<close> arms a timer that aborts the request and awaits \<^verbatim>\<open>fetch\<close>. What
  happens next is decided by the order in which the platform delivers three kinds of
  signal: the timer fires, the request is answered, the request fails. The executor is the
  state of one call: the armed timer with its delay, whether \<^verbatim>\<open>controller.abort()\<close> ran,
  and how the call has settled, if it has.
\<close>

datatype body_read = Parsed json | Unparsable string | Stalled

record http_response =
  status :: nat
  body :: body_read

definition ok :: "http_response \<Rightarrow> bool" where
  "ok r = (200 \<le> status r \<and> status r \<le> 299)"

datatype signal = TimerFires | FetchResolves http_response | FetchRejects string

datatype settlement = Fulfilled http_response | RejectedAbort | Rejected string

record executor =
  timer :: "nat option"
  aborted :: bool
  settled :: "settlement option"

definition CONFIG_TIMEOUT :: nat where
  "CONFIG_TIMEOUT = 10000"

definition CUAD_API_URL :: string where
  "CUAD_API_URL = ''http://localhost:8000''"

text \<open>
  The statements before \<^verbatim>\<open>await\<close>: \<^verbatim>\<open>timeout = CONFIG.TIMEOUT\<close> unless the caller gives
  one, \<^verbatim>\<open>setTimeout(() => controller.abort(), timeout)\<close>, and the request is under way.
\<close>

definition start :: "nat option \<Rightarrow> executor" where
  "start timeout =
     \<lparr> timer = Some (case timeout of None \<Rightarrow> CONFIG_TIMEOUT | Some t \<Rightarrow> t),
       aborted = False, settled = None \<rparr>"

text \<open>
  One signal. An armed timer that fires runs \<^verbatim>\<open>controller.abort()\<close>, which rejects the
  request if it is still pending; the \<^verbatim>\<open>catch\<close> block rethrows. An answer or a failure of
  a pending request runs \<^verbatim>\<open>clearTimeout(id)\<close> and settles the call. A cleared timer
  does not fire, and a settled request takes no further signal.
\<close>

fun step :: "executor \<Rightarrow> signal \<Rightarrow> executor" where
  "step x TimerFires =
     (if timer x = None then x
      else x \<lparr> timer := None, aborted := True,
               settled := (if settled x = None then Some RejectedAbort else settled x) \<rparr>)"
| "step x (FetchResolves r) =
     (if settled x = None then x \<lparr> timer := None, settled := Some (Fulfilled r) \<rparr> else x)"
| "step x (FetchRejects m) =
     (if settled x = None then x \<lparr> timer := None, settled := Some (Rejected m) \<rparr> else x)"

definition fetchWithTimeout :: "nat option \<Rightarrow> signal list \<Rightarrow> executor" where
  "fetchWithTimeout timeout signals = foldl step (start timeout) signals"

section \<open>The cached operations\<close>

text \<open>
  How a \<^verbatim>\<open>try\<close> block can end in its \<^verbatim>\<open>catch\<close>: the request was aborted by the timer,
  \<^verbatim>\<open>fetch\<close> failed, \<^verbatim>\<open>response.ok\<close> was false, or \<^verbatim>\<open>response.json()\<close> could not parse
  the body. \<open>message\<close> is \<^verbatim>\<open>error.message\<close>; the text of an abort is the platform's.
\<close>

datatype failure = Aborted | NetworkFailure string | ApiError nat | BadJson string

fun message :: "string \<Rightarrow> failure \<Rightarrow> string" where
  "message abortText Aborted = abortText"
| "message abortText (NetworkFailure m) = m"
| "message abortText (ApiError st) = ''API error: '' @ show_nat st"
| "message abortText (BadJson m) = m"

text \<open>
  \<^verbatim>\<open>await fetchWithTimeout(...)\<close>: \<open>None\<close> while the call has not settled.
\<close>

definition awaited :: "executor \<Rightarrow> (failure + http_response) option" where
  "awaited x =
     (case settled x of
        None \<Rightarrow> None
      | Some (Fulfilled r) \<Rightarrow> Some (Inr r)
      | Some RejectedAbort \<Rightarrow> Some (Inl Aborted)
      | Some (Rejected m) \<Rightarrow> Some (Inl (NetworkFailure m)))"

text \<open>
  \<^verbatim>\<open>await response.json()\<close>. The timer is cleared by then, so a body that never arrives
  is awaited for ever: \<open>None\<close>.
\<close>

definition read_json :: "http_response \<Rightarrow> (failure + json) option" where
  "read_json r =
     (case body r of
        Parsed j \<Rightarrow> Some (Inr j)
      | Unparsable m \<Rightarrow> Some (Inl (BadJson m))
      | Stalled \<Rightarrow> None)"

text \<open>
  The \<^verbatim>\<open>try\<close> block of \<^verbatim>\<open>checkCUADHealth\<close> up to \<^verbatim>\<open>data\<close>: the status of the response is
  not looked at.
\<close>

definition health_attempt :: "signal list \<Rightarrow> (failure + json) option" where
  "health_attempt signals =
     (case awaited (fetchWithTimeout None signals) of
        None \<Rightarrow> None
      | Some (Inl err) \<Rightarrow> Some (Inl err)
      | Some (Inr response) \<Rightarrow> read_json response)"

text \<open>
  The \<^verbatim>\<open>try\<close> block of \<^verbatim>\<open>searchCUADSimple\<close> and of \<^verbatim>\<open>analyzeSimple\<close> up to \<^verbatim>\<open>data\<close>, with
  \<^verbatim>\<open>if (!response.ok) throw new Error(`API error: ${response.status}`)\<close>.
\<close>

definition checked_attempt :: "signal list \<Rightarrow> (failure + json) option" where
  "checked_attempt signals =
     (case awaited (fetchWithTimeout None signals) of
        None \<Rightarrow> None
      | Some (Inl err) \<Rightarrow> Some (Inl err)
      | Some (Inr response) \<Rightarrow>
          if \<not> ok response then Some (Inl (ApiError (status response)))
          else read_json response)"

text \<open>
  What one call meets: the clock when it looks into the cache, the signals of its request
  if it makes one, the clock when the answer is there, and the platform's message for an
  abort, for reading a property of \<^verbatim>\<open>null\<close> and for printing an object that cannot be
  printed.
\<close>

record env =
  now :: int
  signals :: "signal list"
  later :: int
  abortText :: string
  nullReadText :: string
  toPrimitiveText :: string

text \<open>
  What one call does: the answer (\<open>None\<close> when the caller is never answered), the cache
  it leaves, and its accesses to cache and network in order.
\<close>

record http_request =
  url :: string
  http_method :: string
  payload :: "json option"

datatype event = CacheGet string | NetCall http_request | CacheSet string

record outcome =
  reply :: "json option"
  cache_after :: cache
  trace :: "event list"

definition checkCUADHealth :: "env \<Rightarrow> cache \<Rightarrow> outcome" where
  "checkCUADHealth e c =
     (let cacheKey = ''health_check'' in
      case cached_fresh c cacheKey (now e) of
        Some d \<Rightarrow> \<lparr> reply = Some d, cache_after = c, trace = [CacheGet cacheKey] \<rparr>
      | None \<Rightarrow>
          (let call = NetCall \<lparr> url = CUAD_API_URL @ ''/health'', http_method = ''GET'',
                                payload = None \<rparr>
           in case health_attempt (signals e) of
                None \<Rightarrow> \<lparr> reply = None, cache_after = c, trace = [CacheGet cacheKey, call] \<rparr>
              | Some (Inr d) \<Rightarrow>
                  \<lparr> reply = Some (JObj [(''status'', JStr ''healthy''), (''data'', d)]),
                    cache_after =
                      cache_set c cacheKey (JObj [(''status'', JStr ''healthy''), (''data'', d)])
                        (later e),
                    trace = [CacheGet cacheKey, call, CacheSet cacheKey] \<rparr>
              | Some (Inl err) \<Rightarrow>
                  \<lparr> reply = Some (JObj [(''status'', JStr ''error''),
                                        (''error'', JStr (message (abortText e) err)),
                                        (''fallback'', JBool True)]),
                    cache_after = c, trace = [CacheGet cacheKey, call] \<rparr>))"

definition search_key :: "string \<Rightarrow> int \<Rightarrow> string" where
  "search_key query nResults = ''search_'' @ query @ ''_'' @ show_int nResults"

definition searchCUADSimple :: "env \<Rightarrow> cache \<Rightarrow> string \<Rightarrow> int \<Rightarrow> outcome" where
  "searchCUADSimple e c query nResults =
     (let cacheKey = search_key query nResults in
      case cached_fresh c cacheKey (now e) of
        Some d \<Rightarrow> \<lparr> reply = Some d, cache_after = c, trace = [CacheGet cacheKey] \<rparr>
      | None \<Rightarrow>
          (let call = NetCall \<lparr> url = CUAD_API_URL @ ''/search'', http_method = ''POST'',
                                payload = Some (JObj [(''query'', JStr query),
                                                      (''n_results'', JInt nResults),
                                                      (''min_similarity'', JDec ''0.2'')]) \<rparr>
           in case checked_attempt (signals e) of
                None \<Rightarrow> \<lparr> reply = None, cache_after = c, trace = [CacheGet cacheKey, call] \<rparr>
              | Some (Inr d) \<Rightarrow>
                  \<lparr> reply = Some d, cache_after = cache_set c cacheKey d (later e),
                    trace = [CacheGet cacheKey, call, CacheSet cacheKey] \<rparr>
              | Some (Inl err) \<Rightarrow>
                  \<lparr> reply = Some (JArr (map clause_json (getFallbackClauses query nResults))),
                    cache_after = c, trace = [CacheGet cacheKey, call] \<rparr>))"

text \<open>
  \<^verbatim>\<open>question\<close> is \<open>None\<close> for \<^verbatim>\<open>null\<close> (the default of the parameter); a template prints
  \<^verbatim>\<open>null\<close> as the four letters, and \<^verbatim>\<open>question || "..."\<close> takes the default for \<^verbatim>\<open>null\<close>
  and for the empty string.
\<close>

definition question_text :: "string option \<Rightarrow> string" where
  "question_text question = (case question of None \<Rightarrow> ''null'' | Some q \<Rightarrow> q)"

definition question_json :: "string option \<Rightarrow> json" where
  "question_json question = (case question of None \<Rightarrow> JNull | Some q \<Rightarrow> JStr q)"

definition analyze_key :: "string \<Rightarrow> string option \<Rightarrow> string" where
  "analyze_key documentText question =
     ''analyze_'' @ substring0 documentText 50 @ ''_'' @ question_text question"

definition analysis_prompt :: "string option \<Rightarrow> string" where
  "analysis_prompt question =
     (case question of
        None \<Rightarrow> ''Please analyze this legal document.''
      | Some q \<Rightarrow> if q = [] then ''Please analyze this legal document.'' else q)"

definition analyzeSimple :: "env \<Rightarrow> cache \<Rightarrow> string \<Rightarrow> string option \<Rightarrow> outcome" where
  "analyzeSimple e c documentText question =
     (let cacheKey = analyze_key documentText question in
      case cached_fresh c cacheKey (now e) of
        Some d \<Rightarrow> \<lparr> reply = Some d, cache_after = c, trace = [CacheGet cacheKey] \<rparr>
      | None \<Rightarrow>
          (let call = NetCall \<lparr> url = CUAD_API_URL @ ''/analyze'', http_method = ''POST'',
                                payload = Some (JObj [(''document_text'',
                                                         JStr (substring0 documentText 2000)),
                                                      (''question'', question_json question),
                                                      (''n_references'', JInt 2)]) \<rparr>
           in case checked_attempt (signals e) of
                None \<Rightarrow> \<lparr> reply = None, cache_after = c, trace = [CacheGet cacheKey, call] \<rparr>
              | Some (Inr d) \<Rightarrow>
                  \<lparr> reply = Some d, cache_after = cache_set c cacheKey d (later e),
                    trace = [CacheGet cacheKey, call, CacheSet cacheKey] \<rparr>
              | Some (Inl err) \<Rightarrow>
                  \<lparr> reply = Some (JObj [(''status'', JStr ''fallback''),
                                        (''document_preview'', JStr (substring0 documentText 200)),
                                        (''relevant_clauses_found'', JInt 0),
                                        (''analysis_prompt'', JStr (analysis_prompt question)),
                                        (''analysis_ready'', JBool False)]),
                    cache_after = c, trace = [CacheGet cacheKey, call] \<rparr>))"

section \<open>The message handler\<close>

subsection \<open>Text of a value and of an instant\<close>

text \<open>
  A template literal \<^verbatim>\<open>`${v}`\<close> prints \<^verbatim>\<open>undefined\<close> and \<^verbatim>\<open>null\<close> by name, a string as it
  is, a number as above, an array as its elements joined by commas (\<^verbatim>\<open>null\<close> elements as
  nothing) and any other object as \<^verbatim>\<open>[object Object]\<close>. An object parsed from JSON with a
  property \<^verbatim>\<open>toString\<close> of its own hides the method of that name, and printing it, alone or
  inside an array, throws a TypeError: \<open>None\<close>.
\<close>

fun join_comma :: "string list \<Rightarrow> string" where
  "join_comma [] = []"
| "join_comma [x] = x"
| "join_comma (x # y # ys) = x @ '','' @ join_comma (y # ys)"

fun js_text :: "json \<Rightarrow> string option" where
  "js_text JNull = Some ''null''"
| "js_text (JBool b) = Some (if b then ''true'' else ''false'')"
| "js_text (JInt i) = Some (show_int i)"
| "js_text (JDec s) = Some s"
| "js_text (JStr s) = Some s"
| "js_text (JArr xs) =
     map_option join_comma
       (those (map (\<lambda>x. if x = JNull then Some [] else js_text x) xs))"
| "js_text (JObj kvs) =
     (if map_of kvs ''toString'' = None then Some ''[object Object]'' else None)"

definition template_text :: "json option \<Rightarrow> string option" where
  "template_text v = (case v of None \<Rightarrow> Some ''undefined'' | Some j \<Rightarrow> js_text j)"

text \<open>
  \<^verbatim>\<open>new Date().toISOString()\<close> at the instant \<open>t\<close> (milliseconds since 1970): the civil date
  of the day number, then the time of day. Years outside 0 to 9999 are printed with a sign
  and six digits.
\<close>

definition pad :: "nat \<Rightarrow> int \<Rightarrow> string" where
  "pad w n = replicate (w - length (show_nat (nat n))) CHR ''0'' @ show_nat (nat n)"

definition civil_from_days :: "int \<Rightarrow> int \<times> int \<times> int" where
  "civil_from_days days =
     (let z = days + 719468;
          era = z div 146097;
          doe = z mod 146097;
          yoe = (doe - doe div 1460 + doe div 36524 - doe div 146096) div 365;
          doy = doe - (365 * yoe + yoe div 4 - yoe div 100);
          mp = (5 * doy + 2) div 153;
          d = doy - (153 * mp + 2) div 5 + 1;
          m = (if mp < 10 then mp + 3 else mp - 9);
          y = yoe + era * 400 + (if m \<le> 2 then 1 else 0)
      in (y, m, d))"

definition year_text :: "int \<Rightarrow> string" where
  "year_text y =
     (if 0 \<le> y \<and> y \<le> 9999 then pad 4 y
      else (if y < 0 then ''-'' else ''+'') @ pad 6 (abs y))"

definition toISOString :: "int \<Rightarrow> string" where
  "toISOString t =
     (let ms = t mod 86400000 in
      case civil_from_days (t div 86400000) of
        (y, m, d) \<Rightarrow>
          year_text y @ ''-'' @ pad 2 m @ ''-'' @ pad 2 d @ ''T'' @
          pad 2 (ms div 3600000) @ '':'' @ pad 2 (ms div 60000 mod 60) @ '':'' @
          pad 2 (ms div 1000 mod 60) @ ''.'' @ pad 3 (ms mod 1000) @ ''Z'')"

subsection \<open>Requests and dispatch\<close>

text \<open>
  A message as the user interface sends it: \<^verbatim>\<open>action\<close>, and the fields the actions read,
  \<open>query\<close> and \<open>documentText\<close> being strings and \<open>nResults\<close> a whole number of absolute
  value below \<open>10\<^sup>2\<^sup>1\<close>.
  \<open>nResults\<close> and \<open>question\<close> may be absent (\<open>None\<close>); \<^verbatim>\<open>request.nResults || 3\<close> takes 3
  when the field is absent or 0. With such messages none of the operations throws, and
  the \<^verbatim>\<open>catch\<close> of the listener is reached only from the enhanced analysis.
\<close>

record request =
  action :: string
  query :: string
  nResults :: "int option"
  documentText :: string
  question :: "string option"

definition nResults_or_3 :: "int option \<Rightarrow> int" where
  "nResults_or_3 n = (case n of None \<Rightarrow> 3 | Some k \<Rightarrow> if k = 0 then 3 else k)"


text \<open>
  The answer of the \<^verbatim>\<open>catch\<close> block of the listener to an error with the message \<open>m\<close>.
\<close>

definition caught :: "env \<Rightarrow> string \<Rightarrow> json" where
  "caught e m =
     JObj [(''error'', JStr m),
           (''fallback'', JBool True),
           (''timestamp'', JStr (toISOString (later e)))]"

text \<open>
  The case \<^verbatim>\<open>GET_ENHANCED_RESPONSE\<close> after \<^verbatim>\<open>analyzeSimple\<close> has answered. Reading
  \<^verbatim>\<open>analysis.analysis_prompt\<close> throws when the analysis is \<^verbatim>\<open>null\<close>, and the template
  throws when one of the two values it prints cannot be printed; the \<^verbatim>\<open>catch\<close> of the
  listener then answers with the message of the error.
\<close>

definition enhanced_response :: "env \<Rightarrow> json \<Rightarrow> json" where
  "enhanced_response e analysis =
     (if analysis = JNull then caught e (nullReadText e)
      else case template_text (get_prop analysis ''analysis_prompt'') of
        None \<Rightarrow> caught e (toPrimitiveText e)
      | Some prompt \<Rightarrow>
         (case template_text (get_prop analysis ''relevant_clauses_found'') of
            None \<Rightarrow> caught e (toPrimitiveText e)
          | Some found \<Rightarrow>
              JObj [(''fallback'', JBool True),
                    (''content'',
                       JStr (''Analysis based on document context: '' @ prompt @
                             [CHR 0x0A, CHR 0x0A] @ ''[Using CUAD RAG system - '' @ found @
                             '' references found]'')),
                    (''analysis'', analysis),
                    (''timestamp'', JStr (toISOString (later e)))]))"

text \<open>
  The listener: the \<^verbatim>\<open>switch\<close> on \<^verbatim>\<open>request.action\<close>; \<open>reply\<close> is the argument of
  \<^verbatim>\<open>sendResponse\<close>.
\<close>

definition handler :: "env \<Rightarrow> cache \<Rightarrow> request \<Rightarrow> outcome" where
  "handler e c request =
     (if action request = ''CHECK_CUAD_HEALTH'' then checkCUADHealth e c
      else if action request = ''SEARCH_CUAD''
        then searchCUADSimple e c (query request) (nResults_or_3 (nResults request))
      else if action request = ''ANALYZE_WITH_CUAD''
        then analyzeSimple e c (documentText request) (question request)
      else if action request = ''GET_GPT_RESPONSE''
        then \<lparr> reply = Some (JObj [(''fallback'', JBool True),
                                   (''content'', JStr ''Analysis based on CUAD references: This appears to be a legal document containing standard provisions. For detailed analysis, please configure OpenAI API key in settings.''),
                                   (''timestamp'', JStr (toISOString (now e)))]),
               cache_after = c, trace = [] \<rparr>
      else if action request = ''GET_ENHANCED_RESPONSE''
        then (let r = analyzeSimple e c (documentText request) (question request)
              in r \<lparr> reply := map_option (enhanced_response e) (reply r) \<rparr>)
      else if action request = ''PING''
        then \<lparr> reply = Some (JObj [(''status'', JStr ''pong''), (''timestamp'', JInt (now e))]),
               cache_after = c, trace = [] \<rparr>
      else \<lparr> reply = Some (JObj [(''error'', JStr ''Unknown action''),
                                 (''action'', JStr (action request))]),
             cache_after = c, trace = [] \<rparr>)"

section \<open>Vocabulary of the properties\<close>

text \<open>The keys written and the requests sent, read off a trace.\<close>

fun cache_writes :: "event list \<Rightarrow> string list" where
  "cache_writes [] = []"
| "cache_writes (CacheSet k # evs) = k # cache_writes evs"
| "cache_writes (ev # evs) = cache_writes evs"

fun net_calls :: "event list \<Rightarrow> http_request list" where
  "net_calls [] = []"
| "net_calls (NetCall r # evs) = r # net_calls evs"
| "net_calls (ev # evs) = net_calls evs"

text \<open>
  The failure modes of a backend call, as the signals of the call show them. The backend
  is unreachable when the first signal is the timer (timeout) or the failure of the
  request (network error); it answers with a bad status when \<^verbatim>\<open>response.ok\<close> is false;
  its payload is malformed when the body cannot be parsed.
\<close>

fun unreachable :: "signal list \<Rightarrow> bool" where
  "unreachable (TimerFires # rest) = True"
| "unreachable (FetchRejects m # rest) = True"
| "unreachable _ = False"

fun bad_status :: "signal list \<Rightarrow> bool" where
  "bad_status (FetchResolves r # rest) = (\<not> ok r)"
| "bad_status _ = False"

fun unparsable :: "body_read \<Rightarrow> bool" where
  "unparsable (Unparsable m) = True"
| "unparsable _ = False"

fun bad_payload :: "signal list \<Rightarrow> bool" where
  "bad_payload (FetchResolves r # rest) = unparsable (body r)"
| "bad_payload _ = False"

text \<open>A successful fetch: the request is answered with \<^verbatim>\<open>response.ok\<close> and the payload \<open>d\<close>.\<close>

fun fetched :: "signal list \<Rightarrow> json \<Rightarrow> bool" where
  "fetched (FetchResolves r # rest) d = (ok r \<and> body r = Parsed d)"
| "fetched _ d = False"

text \<open>
  A response carries the fallback flag when its property \<^verbatim>\<open>fallback\<close> (the script's name)
  or \<^verbatim>\<open>isFallback\<close> is \<^verbatim>\<open>true\<close>.
\<close>

definition carries_fallback_flag :: "json \<Rightarrow> bool" where
  "carries_fallback_flag v =
     (get_prop v ''fallback'' = Some (JBool True) \<or> get_prop v ''isFallback'' = Some (JBool True))"

text \<open>
  The cache after a history of requests, handled one after the other; each comes with
  what it meets.
\<close>

fun serve :: "cache \<Rightarrow> (env \<times> request) list \<Rightarrow> cache" where
  "serve c [] = c"
| "serve c ((e, rq) # rest) = serve (cache_after (handler e c rq)) rest"

text \<open>The backend is down during a history: unreachable for each of its requests.\<close>

fun down_throughout :: "(env \<times> request) list \<Rightarrow> bool" where
  "down_throughout [] = True"
| "down_throughout ((e, rq) # rest) = (unreachable (signals e) \<and> down_throughout rest)"

text \<open>
  The cache key of a request with one of the four actions that use the cache: the
  \<^verbatim>\<open>cacheKey\<close> of the operation the action calls (\<^verbatim>\<open>analyzeSimple\<close> for the enhanced
  analysis too).
\<close>

definition cache_key :: "request \<Rightarrow> string" where
  "cache_key rq =
     (if action rq = ''CHECK_CUAD_HEALTH'' then ''health_check''
      else if action rq = ''SEARCH_CUAD''
        then search_key (query rq) (nResults_or_3 (nResults rq))
      else analyze_key (documentText rq) (question rq))"

text \<open>
  A case-insensitive substring match, in the words of the specification and without the
  script's \<^verbatim>\<open>toLowerCase\<close>. The letters that have two cases are listed in pairs, capital
  first: A to Z, and the Latin-1 letters from code 192 to 222 (without the multiplication
  sign, 215), whose small letters are 32 codes higher. Two characters are the same up to
  case when they are equal or form such a pair, in either order; two strings when they
  have the same length and are so character by character. The query \<open>q\<close> occurs in \<open>s\<close>
  ignoring case when some substring of \<open>s\<close> is the same as \<open>q\<close> up to case.
\<close>

definition letter_pairs :: "(char \<times> char) list" where
  "letter_pairs =
     zip ''ABCDEFGHIJKLMNOPQRSTUVWXYZ'' ''abcdefghijklmnopqrstuvwxyz'' @
     map (\<lambda>n. (char_of n, char_of (n + 32))) (filter (\<lambda>n. n \<noteq> 215) [192 ..< 223 :: nat])"

definition same_up_to_case :: "char \<Rightarrow> char \<Rightarrow> bool" where
  "same_up_to_case a b = (a = b \<or> (a, b) \<in> set letter_pairs \<or> (b, a) \<in> set letter_pairs)"

definition occurs_ignoring_case :: "string \<Rightarrow> string \<Rightarrow> bool" where
  "occurs_ignoring_case q s =
     (\<exists>pre w post. s = pre @ w @ post \<and> list_all2 same_up_to_case w q)"

section \<open>Properties of the fallback provider\<close>

lemma starts_with_iff: "starts_with s q \<longleftrightarrow> (\<exists>post. s = q @ post)"
  by (induction s q rule: starts_with.induct) auto

lemma str_includes_iff: "str_includes s q \<longleftrightarrow> (\<exists>pre post. s = pre @ q @ post)"
proof (induction s)
  case Nil
  then show ?case by simp
next
  case (Cons c cs)
  show ?case
  proof
    assume "str_includes (c # cs) q"
    then consider "starts_with (c # cs) q" | "str_includes cs q" by auto
    then show "\<exists>pre post. c # cs = pre @ q @ post"
    proof cases
      case 1
      then obtain post where "c # cs = q @ post" by (auto simp: starts_with_iff)
      then have "c # cs = [] @ q @ post" by simp
      then show ?thesis by blast
    next
      case 2
      then obtain pre post where "cs = pre @ q @ post" using Cons.IH by auto
      then have "c # cs = (c # pre) @ q @ post" by simp
      then show ?thesis by blast
    qed
  next
    assume "\<exists>pre post. c # cs = pre @ q @ post"
    then obtain pre post where eq: "c # cs = pre @ q @ post" by blast
    show "str_includes (c # cs) q"
    proof (cases pre)
      case Nil
      with eq have "starts_with (c # cs) q" by (auto simp: starts_with_iff)
      then show ?thesis by simp
    next
      case (Cons p ps)
      with eq have "cs = ps @ q @ post" by simp
      then have "str_includes cs q" using Cons.IH by blast
      then show ?thesis by simp
    qed
  qed
qed

lemma slice0_pos: "0 < n \<Longrightarrow> slice0 xs n = take (nat n) xs"
  by (simp add: slice0_def)

lemma take_pos_Nil: "0 < k \<Longrightarrow> take k xs = [] \<longleftrightarrow> xs = []"
  by (cases xs) auto

lemma fallback_from_pos:
  assumes "0 < n"
  shows "fallback_from catalog q n =
           (if filter (clause_matches (toLowerCase q)) catalog = []
            then take (nat n) catalog
            else take (nat n) (filter (clause_matches (toLowerCase q)) catalog))"
proof -
  have k: "0 < nat n" using assms by simp
  show ?thesis
    using assms by (simp add: fallback_from_def Let_def slice0_pos take_pos_Nil [OF k])
qed

lemma filter_take_filter: "filter P (take k (filter P xs)) = take k (filter P xs)"
proof -
  have "\<forall>x \<in> set (take k (filter P xs)). P x"
  proof
    fix x
    assume "x \<in> set (take k (filter P xs))"
    then have "x \<in> set (filter P xs)" by (rule in_set_takeD)
    then show "P x" by simp
  qed
  then show ?thesis by (rule filter_True)
qed

lemma filter_take_none:
  assumes "filter P xs = []"
  shows "filter P (take k xs) = []"
proof -
  have none: "\<forall>x \<in> set xs. \<not> P x"
    using assms by (simp add: filter_empty_conv)
  have "set (take k xs) \<subseteq> set xs"
    by (rule set_take_subset)
  with none have "\<forall>x \<in> set (take k xs). \<not> P x"
    by blast
  then show ?thesis by (simp add: filter_empty_conv)
qed

lemma fallback_from_idem:
  assumes "0 < n"
  shows "fallback_from (fallback_from catalog q n) q n = fallback_from catalog q n"
proof -
  let ?P = "clause_matches (toLowerCase q)"
  have k: "0 < nat n" using assms by simp
  show ?thesis
  proof (cases "filter ?P catalog = []")
    case True
    then have r: "fallback_from catalog q n = take (nat n) catalog"
      using assms by (simp add: fallback_from_pos)
    have "filter ?P (take (nat n) catalog) = []" using True by (rule filter_take_none)
    then show ?thesis using assms r by (simp add: fallback_from_pos)
  next
    case False
    then have r: "fallback_from catalog q n = take (nat n) (filter ?P catalog)"
      using assms by (simp add: fallback_from_pos)
    have ne: "take (nat n) (filter ?P catalog) \<noteq> []" using False k by (simp add: take_pos_Nil)
    show ?thesis using assms ne r by (simp add: fallback_from_pos filter_take_filter)
  qed
qed

lemma fallback_from_nonempty:
  assumes "0 < n" and "catalog \<noteq> []"
  shows "fallback_from catalog q n \<noteq> []"
proof -
  have k: "0 < nat n" using assms by simp
  show ?thesis using assms by (simp add: fallback_from_pos take_pos_Nil [OF k])
qed

lemma fallback_from_length:
  assumes "0 < n"
  shows "length (fallback_from catalog q n) \<le> nat n"
  using assms by (simp add: fallback_from_pos)

lemma sampleClauses_length: "length sampleClauses = 3"
  by (simp add: sampleClauses_def)

lemma matches_confidential:
  "filter (clause_matches ''confidential'') sampleClauses = [sampleClauses ! 0]"
  by (simp add: sampleClauses_def clause_matches_def toLowerCase_def lower_char_def)

lemma lower_confidential: "toLowerCase ''confidential'' = ''confidential''"
  by (simp add: toLowerCase_def lower_char_def)

lemma fallback_confidential: "getFallbackClauses ''confidential'' 3 = [sampleClauses ! 0]"
  by (simp add: getFallbackClauses_def fallback_from_pos lower_confidential matches_confidential)

lemma confidentiality_clause_json:
  "clause_json (sampleClauses ! 0) =
     JObj [ (''text'', JStr ''Confidential Information means all information disclosed by one party to another that is marked confidential or should reasonably be considered confidential.''),
            (''clause_type'', JStr ''Confidentiality''),
            (''similarity_score'', JDec ''0.85''),
            (''metadata'', JObj [ (''source'', JStr ''fallback''),
                                 (''document_title'', JStr ''Sample NDA'') ]) ]"
  by (simp add: clause_json_def sampleClauses_def)

subsection \<open>Matching without regard to case\<close>

lemma ascii_pairs_by_code:
  "zip ''ABCDEFGHIJKLMNOPQRSTUVWXYZ'' ''abcdefghijklmnopqrstuvwxyz''
     = map (\<lambda>n. (char_of n, char_of (n + 32))) [65 ..< 91 :: nat]"
  by code_simp

text \<open>The codes of the capital letters.\<close>

lemma letter_pairs_by_code:
  "set letter_pairs =
     (\<lambda>n. (char_of n, char_of (n + 32))) `
       {n :: nat. 65 \<le> n \<and> n < 91 \<or> 192 \<le> n \<and> n < 223 \<and> n \<noteq> 215}"
proof -
  have eq: "letter_pairs =
          map (\<lambda>n. (char_of n, char_of (n + 32)))
            ([65 ..< 91 :: nat] @ filter (\<lambda>n. n \<noteq> 215) [192 ..< 223 :: nat])"
    by (simp only: letter_pairs_def ascii_pairs_by_code map_append)
  have codes: "set ([65 ..< 91 :: nat] @ filter (\<lambda>n. n \<noteq> 215) [192 ..< 223 :: nat])
               = {n :: nat. 65 \<le> n \<and> n < 91 \<or> 192 \<le> n \<and> n < 223 \<and> n \<noteq> 215}"
    by (simp only: set_append set_upt set_filter) auto
  have "set letter_pairs =
          (\<lambda>n. (char_of n, char_of (n + 32))) `
            set ([65 ..< 91 :: nat] @ filter (\<lambda>n. n \<noteq> 215) [192 ..< 223 :: nat])"
    by (simp only: eq set_map)
  then show ?thesis by (simp only: codes)
qed

lemma letter_pairs_iff:
  "(a, b) \<in> set letter_pairs \<longleftrightarrow>
     (65 \<le> (of_char a :: nat) \<and> (of_char a :: nat) \<le> 90
        \<or> 192 \<le> (of_char a :: nat) \<and> (of_char a :: nat) \<le> 222 \<and> (of_char a :: nat) \<noteq> 215)
     \<and> (of_char b :: nat) = of_char a + 32"
proof
  assume "(a, b) \<in> set letter_pairs"
  then obtain n :: nat where n: "65 \<le> n \<and> n < 91 \<or> 192 \<le> n \<and> n < 223 \<and> n \<noteq> 215"
      and a: "a = char_of n" and b: "b = char_of (n + 32)"
    unfolding letter_pairs_by_code by blast
  from n have "n mod 256 = n" and "(n + 32) mod 256 = n + 32" by auto
  then have "(of_char a :: nat) = n" and "(of_char b :: nat) = n + 32"
    using a b by simp_all
  with n show "(65 \<le> (of_char a :: nat) \<and> (of_char a :: nat) \<le> 90
        \<or> 192 \<le> (of_char a :: nat) \<and> (of_char a :: nat) \<le> 222 \<and> (of_char a :: nat) \<noteq> 215)
     \<and> (of_char b :: nat) = of_char a + 32"
    by auto
next
  assume h: "(65 \<le> (of_char a :: nat) \<and> (of_char a :: nat) \<le> 90
        \<or> 192 \<le> (of_char a :: nat) \<and> (of_char a :: nat) \<le> 222 \<and> (of_char a :: nat) \<noteq> 215)
     \<and> (of_char b :: nat) = of_char a + 32"
  define n :: nat where "n = of_char a"
  have a: "a = char_of n" by (simp add: n_def)
  have "b = char_of (of_char b :: nat)" by simp
  with h have b: "b = char_of (n + 32)" by (simp add: n_def)
  from h have "65 \<le> n \<and> n < 91 \<or> 192 \<le> n \<and> n < 223 \<and> n \<noteq> 215"
    unfolding n_def by auto
  then have "(char_of n, char_of (n + 32)) \<in> set letter_pairs"
    unfolding letter_pairs_by_code by blast
  with a b show "(a, b) \<in> set letter_pairs" by simp
qed

lemma of_char_lower_char:
  "(of_char (lower_char a) :: nat) =
     (if 65 \<le> (of_char a :: nat) \<and> (of_char a :: nat) \<le> 90
          \<or> 192 \<le> (of_char a :: nat) \<and> (of_char a :: nat) \<le> 222 \<and> (of_char a :: nat) \<noteq> 215
      then of_char a + 32 else of_char a)"
proof -
  define n :: nat where "n = of_char a"
  have low: "lower_char a =
      (if 65 \<le> n \<and> n \<le> 90 \<or> 192 \<le> n \<and> n \<le> 222 \<and> n \<noteq> 215 then char_of (n + 32) else a)"
    by (simp add: lower_char_def Let_def n_def)
  show ?thesis
  proof (cases "65 \<le> n \<and> n \<le> 90 \<or> 192 \<le> n \<and> n \<le> 222 \<and> n \<noteq> 215")
    case True
    then have "(n + 32) mod 256 = n + 32" by auto
    then have "(of_char (char_of (n + 32)) :: nat) = n + 32" by simp
    with True low show ?thesis by (simp add: n_def [symmetric])
  next
    case False
    with low show ?thesis by (simp add: n_def [symmetric])
  qed
qed

lemma lower_char_eq_iff: "lower_char a = lower_char b \<longleftrightarrow> same_up_to_case a b"
proof -
  define n :: nat where "n = of_char a"
  define m :: nat where "m = of_char b"
  have ab: "a = b \<longleftrightarrow> n = m" by (simp add: n_def m_def)
  have "lower_char a = lower_char b \<longleftrightarrow>
          (of_char (lower_char a) :: nat) = of_char (lower_char b)"
    by simp
  also have "\<dots> \<longleftrightarrow>
      (if 65 \<le> n \<and> n \<le> 90 \<or> 192 \<le> n \<and> n \<le> 222 \<and> n \<noteq> 215 then n + 32 else n)
      = (if 65 \<le> m \<and> m \<le> 90 \<or> 192 \<le> m \<and> m \<le> 222 \<and> m \<noteq> 215 then m + 32 else m)"
    by (simp only: of_char_lower_char n_def m_def)
  also have "\<dots> \<longleftrightarrow>
      n = m
      \<or> (65 \<le> n \<and> n \<le> 90 \<or> 192 \<le> n \<and> n \<le> 222 \<and> n \<noteq> 215) \<and> m = n + 32
      \<or> (65 \<le> m \<and> m \<le> 90 \<or> 192 \<le> m \<and> m \<le> 222 \<and> m \<noteq> 215) \<and> n = m + 32"
    by (cases "65 \<le> n \<and> n \<le> 90 \<or> 192 \<le> n \<and> n \<le> 222 \<and> n \<noteq> 215";
        cases "65 \<le> m \<and> m \<le> 90 \<or> 192 \<le> m \<and> m \<le> 222 \<and> m \<noteq> 215") auto
  also have "\<dots> \<longleftrightarrow> same_up_to_case a b"
    by (simp only: same_up_to_case_def letter_pairs_iff ab n_def m_def)
  finally show ?thesis .
qed

lemma toLowerCase_eq_iff: "toLowerCase w = toLowerCase q \<longleftrightarrow> list_all2 same_up_to_case w q"
proof -
  have pointwise: "(\<lambda>a b. lower_char a = lower_char b) = same_up_to_case"
    by (intro ext) (rule lower_char_eq_iff)
  have "toLowerCase w = toLowerCase q \<longleftrightarrow>
          list_all2 (=) (map lower_char w) (map lower_char q)"
    by (simp only: toLowerCase_def list_all2_eq)
  also have "\<dots> \<longleftrightarrow> list_all2 (\<lambda>a b. lower_char a = lower_char b) w q"
    by (simp only: list_all2_map1 list_all2_map2)
  also have "\<dots> \<longleftrightarrow> list_all2 same_up_to_case w q"
    by (simp only: pointwise)
  finally show ?thesis .
qed

lemma toLowerCase_append: "toLowerCase (a @ b) = toLowerCase a @ toLowerCase b"
  by (simp add: toLowerCase_def)

lemma includes_lower_iff:
  "str_includes (toLowerCase s) (toLowerCase q) \<longleftrightarrow> occurs_ignoring_case q s"
proof
  assume "str_includes (toLowerCase s) (toLowerCase q)"
  then obtain pre post where "toLowerCase s = pre @ toLowerCase q @ post"
    unfolding str_includes_iff by blast
  then have "map lower_char s = pre @ (toLowerCase q @ post)"
    by (simp only: toLowerCase_def)
  then have "\<exists>us vs. s = us @ vs \<and> pre = map lower_char us
                \<and> toLowerCase q @ post = map lower_char vs"
    by (simp only: map_eq_append_conv)
  then obtain us vs where s1: "s = us @ vs"
      and vs: "map lower_char vs = toLowerCase q @ post"
    by auto
  from vs have "\<exists>w ts. vs = w @ ts \<and> toLowerCase q = map lower_char w
                 \<and> post = map lower_char ts"
    by (simp only: map_eq_append_conv)
  then obtain w ts where s2: "vs = w @ ts" and w: "toLowerCase q = map lower_char w"
    by auto
  from w have "toLowerCase w = toLowerCase q"
    by (simp only: toLowerCase_def)
  then have "list_all2 same_up_to_case w q"
    by (simp only: toLowerCase_eq_iff)
  with s1 s2 show "occurs_ignoring_case q s"
    unfolding occurs_ignoring_case_def by blast
next
  assume "occurs_ignoring_case q s"
  then obtain pre w post where s: "s = pre @ w @ post" and "list_all2 same_up_to_case w q"
    unfolding occurs_ignoring_case_def by blast
  then have "toLowerCase w = toLowerCase q" by (simp only: toLowerCase_eq_iff)
  with s have "toLowerCase s = toLowerCase pre @ toLowerCase q @ toLowerCase post"
    by (simp only: toLowerCase_append)
  then show "str_includes (toLowerCase s) (toLowerCase q)"
    unfolding str_includes_iff by blast
qed

lemma clause_matches_iff:
  "clause_matches (toLowerCase q) c \<longleftrightarrow>
     occurs_ignoring_case q (clause_text c) \<or> occurs_ignoring_case q (clause_type c)"
  by (simp only: clause_matches_def includes_lower_iff)

lemma alphabet_lower:
  "toLowerCase ''ABCDEFGHIJKLMNOPQRSTUVWXYZ'' = ''abcdefghijklmnopqrstuvwxyz''"
  by code_simp

text \<open>The sample clauses in lower case, and two queries in capitals.\<close>

lemma lower_text_0:
  "toLowerCase ''Confidential Information means all information disclosed by one party to another that is marked confidential or should reasonably be considered confidential.''
     = ''confidential information means all information disclosed by one party to another that is marked confidential or should reasonably be considered confidential.''"
  by (simp add: toLowerCase_def lower_char_def char_of_eq_iff)

lemma lower_text_1:
  "toLowerCase ''This Agreement may be terminated by either party upon thirty (30) days written notice to the other party.''
     = ''this agreement may be terminated by either party upon thirty (30) days written notice to the other party.''"
  by (simp add: toLowerCase_def lower_char_def char_of_eq_iff)

lemma lower_text_2:
  "toLowerCase ''Neither party shall be liable for any indirect, special, incidental, or consequential damages.''
     = ''neither party shall be liable for any indirect, special, incidental, or consequential damages.''"
  by (simp add: toLowerCase_def lower_char_def char_of_eq_iff)

lemma lower_type_0:
  "toLowerCase ''Confidentiality''
     = ''confidentiality''"
  by (simp add: toLowerCase_def lower_char_def char_of_eq_iff)

lemma lower_type_1:
  "toLowerCase ''Termination''
     = ''termination''"
  by (simp add: toLowerCase_def lower_char_def char_of_eq_iff)

lemma lower_type_2:
  "toLowerCase ''Liability''
     = ''liability''"
  by (simp add: toLowerCase_def lower_char_def char_of_eq_iff)

lemmas lower_samples =
  lower_text_0 lower_text_1 lower_text_2 lower_type_0 lower_type_1 lower_type_2

lemma lower_termination: "toLowerCase ''TERMINATION'' = ''termination''"
  by (simp add: toLowerCase_def lower_char_def char_of_eq_iff)

lemma lower_confidential_capitals: "toLowerCase ''CONFIDENTIAL'' = ''confidential''"
  by (simp add: toLowerCase_def lower_char_def char_of_eq_iff)

lemma matches_termination:
  "filter (clause_matches (toLowerCase ''TERMINATION'')) sampleClauses = [sampleClauses ! 1]"
  by (simp add: lower_termination sampleClauses_def clause_matches_def lower_samples)

lemma matches_confidential_capitals:
  "filter (clause_matches (toLowerCase ''CONFIDENTIAL'')) sampleClauses = [sampleClauses ! 0]"
  by (simp add: lower_confidential_capitals sampleClauses_def clause_matches_def lower_samples)

text \<open>
  C5. For every query and every \<open>n > 0\<close>, the fallback search keeps the clauses of the
  catalog in whose text or category the query occurs as a substring when the case of
  letters is ignored (\<^verbatim>\<open>CONFIDENTIAL\<close> occurs in \<^verbatim>\<open>Confidentiality\<close>), in catalog order, and
  returns the first \<open>n\<close> of them; when no clause matches it returns the first \<open>n\<close>
  clauses of the catalog. The script decides the match by lower-casing both sides, which
  turns every capital letter into its small letter. The result has at most \<open>n\<close> clauses,
  is not empty when the catalog is not empty, and searching the result again with the
  same query returns it unchanged. \<^verbatim>\<open>getFallbackClauses\<close> is this search on the three sample
  clauses.
\<close>

theorem fallback_search_filters_catalog:
  assumes "0 < n"
  shows "fallback_from catalog q n =
           (if filter (clause_matches (toLowerCase q)) catalog = []
            then take (nat n) catalog
            else take (nat n) (filter (clause_matches (toLowerCase q)) catalog))
       \<and> (\<forall>c. clause_matches (toLowerCase q) c \<longleftrightarrow>
                (\<exists>pre post. toLowerCase (clause_text c) = pre @ toLowerCase q @ post) \<or>
                (\<exists>pre post. toLowerCase (clause_type c) = pre @ toLowerCase q @ post))
       \<and> (\<forall>c. clause_matches (toLowerCase q) c \<longleftrightarrow>
                occurs_ignoring_case q (clause_text c) \<or> occurs_ignoring_case q (clause_type c))
       \<and> fallback_from catalog q n =
           (if filter (\<lambda>c. occurs_ignoring_case q (clause_text c)
                            \<or> occurs_ignoring_case q (clause_type c)) catalog = []
            then take (nat n) catalog
            else take (nat n)
                   (filter (\<lambda>c. occurs_ignoring_case q (clause_text c)
                                  \<or> occurs_ignoring_case q (clause_type c)) catalog))
       \<and> toLowerCase ''ABCDEFGHIJKLMNOPQRSTUVWXYZ'' = ''abcdefghijklmnopqrstuvwxyz''
       \<and> length (fallback_from catalog q n) \<le> nat n
       \<and> (catalog \<noteq> [] \<longrightarrow> fallback_from catalog q n \<noteq> [])
       \<and> fallback_from (fallback_from catalog q n) q n = fallback_from catalog q n
       \<and> getFallbackClauses q n = fallback_from sampleClauses q n
       \<and> getFallbackClauses q n \<noteq> []"
proof -
  have a: "fallback_from catalog q n =
             (if filter (clause_matches (toLowerCase q)) catalog = []
              then take (nat n) catalog
              else take (nat n) (filter (clause_matches (toLowerCase q)) catalog))"
    using assms by (rule fallback_from_pos)
  have b: "\<forall>c. clause_matches (toLowerCase q) c \<longleftrightarrow>
                (\<exists>pre post. toLowerCase (clause_text c) = pre @ toLowerCase q @ post) \<or>
                (\<exists>pre post. toLowerCase (clause_type c) = pre @ toLowerCase q @ post)"
    by (simp add: clause_matches_def str_includes_iff)
  have b': "\<forall>c. clause_matches (toLowerCase q) c \<longleftrightarrow>
                occurs_ignoring_case q (clause_text c) \<or> occurs_ignoring_case q (clause_type c)"
    by (simp only: clause_matches_iff) simp
  have same: "clause_matches (toLowerCase q) =
                (\<lambda>c. occurs_ignoring_case q (clause_text c)
                      \<or> occurs_ignoring_case q (clause_type c))"
    by (intro ext) (rule clause_matches_iff)
  have a': "fallback_from catalog q n =
           (if filter (\<lambda>c. occurs_ignoring_case q (clause_text c)
                            \<or> occurs_ignoring_case q (clause_type c)) catalog = []
            then take (nat n) catalog
            else take (nat n)
                   (filter (\<lambda>c. occurs_ignoring_case q (clause_text c)
                                  \<or> occurs_ignoring_case q (clause_type c)) catalog))"
    using a by (simp only: same)
  have c: "length (fallback_from catalog q n) \<le> nat n"
    using assms by (rule fallback_from_length)
  have d: "catalog \<noteq> [] \<longrightarrow> fallback_from catalog q n \<noteq> []"
    using assms by (simp add: fallback_from_nonempty)
  have e: "fallback_from (fallback_from catalog q n) q n = fallback_from catalog q n"
    using assms by (rule fallback_from_idem)
  have f: "getFallbackClauses q n = fallback_from sampleClauses q n"
    by (simp add: getFallbackClauses_def)
  have "sampleClauses \<noteq> []" by (simp add: sampleClauses_def)
  then have g: "getFallbackClauses q n \<noteq> []"
    using assms by (simp add: getFallbackClauses_def fallback_from_nonempty)
  show ?thesis by (intro conjI a b b' a' alphabet_lower c d e f g)
qed

text \<open>
  A query that matches nothing, with \<open>n = 2\<close>: the first two sample clauses. A query in
  capitals, with \<open>n = 3\<close>: the one clause whose category is \<^verbatim>\<open>Termination\<close>.
\<close>

theorem fallback_search_filters_catalog_witness:
  "(0::int) < 2
   \<and> fallback_from sampleClauses ''zzz'' 2 = take 2 sampleClauses
   \<and> length (fallback_from sampleClauses ''zzz'' 2) \<le> 2
   \<and> fallback_from sampleClauses ''zzz'' 2 \<noteq> []
   \<and> (0::int) < 3
   \<and> fallback_from sampleClauses ''TERMINATION'' 3 = [sampleClauses ! 1]
   \<and> clause_type (sampleClauses ! 1) = ''Termination''
   \<and> (occurs_ignoring_case ''TERMINATION'' (clause_text (sampleClauses ! 1))
       \<or> occurs_ignoring_case ''TERMINATION'' (clause_type (sampleClauses ! 1)))"
proof -
  have pos: "(0::int) < 2" by simp
  have none: "filter (clause_matches (toLowerCase ''zzz'')) sampleClauses = []"
    by (simp add: sampleClauses_def clause_matches_def toLowerCase_def lower_char_def)
  have ne: "sampleClauses \<noteq> []" by (simp add: sampleClauses_def)
  note t = fallback_search_filters_catalog [OF pos, of sampleClauses "''zzz''"]
  from t have 1: "fallback_from sampleClauses ''zzz'' 2 = take 2 sampleClauses"
    using none by simp
  from t have 2: "length (fallback_from sampleClauses ''zzz'' 2) \<le> 2"
    by simp
  from t ne have 3: "fallback_from sampleClauses ''zzz'' 2 \<noteq> []"
    by blast
  have pos3: "(0::int) < 3" by simp
  note u = fallback_search_filters_catalog [OF pos3, of sampleClauses "''TERMINATION''"]
  from u have "fallback_from sampleClauses ''TERMINATION'' 3 =
           (if filter (clause_matches (toLowerCase ''TERMINATION'')) sampleClauses = []
            then take (nat 3) sampleClauses
            else take (nat 3) (filter (clause_matches (toLowerCase ''TERMINATION'')) sampleClauses))"
    by (rule conjunct1)
  then have 4: "fallback_from sampleClauses ''TERMINATION'' 3 = [sampleClauses ! 1]"
    by (simp add: matches_termination)
  have 5: "clause_type (sampleClauses ! 1) = ''Termination''"
    by (simp add: sampleClauses_def)
  have "sampleClauses ! 1
          \<in> set (filter (clause_matches (toLowerCase ''TERMINATION'')) sampleClauses)"
    by (simp only: matches_termination) simp
  then have m: "clause_matches (toLowerCase ''TERMINATION'') (sampleClauses ! 1)"
    by simp
  from u have "\<forall>c. clause_matches (toLowerCase ''TERMINATION'') c \<longleftrightarrow>
                occurs_ignoring_case ''TERMINATION'' (clause_text c)
                \<or> occurs_ignoring_case ''TERMINATION'' (clause_type c)"
    by blast
  with m have 6: "occurs_ignoring_case ''TERMINATION'' (clause_text (sampleClauses ! 1))
       \<or> occurs_ignoring_case ''TERMINATION'' (clause_type (sampleClauses ! 1))"
    by blast
  show ?thesis using pos 1 2 3 pos3 4 5 6 by blast
qed

section \<open>Properties of the bounded executor\<close>

lemma step_done: "timer x = None \<Longrightarrow> settled x \<noteq> None \<Longrightarrow> step x s = x"
  by (cases s) simp_all

lemma run_done: "timer x = None \<Longrightarrow> settled x \<noteq> None \<Longrightarrow> foldl step x sigs = x"
  by (induction sigs) (simp_all add: step_done)

lemma step_keeps_settled: "settled x \<noteq> None \<Longrightarrow> settled (step x s) = settled x"
  by (cases s) auto

lemma resolves_first:
  "fetchWithTimeout t (FetchResolves r # rest) =
     \<lparr> timer = None, aborted = False, settled = Some (Fulfilled r) \<rparr>"
  by (simp add: fetchWithTimeout_def start_def run_done)

lemma rejects_first:
  "fetchWithTimeout t (FetchRejects m # rest) =
     \<lparr> timer = None, aborted = False, settled = Some (Rejected m) \<rparr>"
  by (simp add: fetchWithTimeout_def start_def run_done)

lemma timer_first:
  "fetchWithTimeout t (TimerFires # rest) =
     \<lparr> timer = None, aborted = True, settled = Some RejectedAbort \<rparr>"
  by (simp add: fetchWithTimeout_def start_def run_done)

lemma no_signal: "fetchWithTimeout t [] = start t"
  by (simp add: fetchWithTimeout_def)

lemma any_signal_settles: "sigs \<noteq> [] \<Longrightarrow> settled (fetchWithTimeout t sigs) \<noteq> None"
proof (cases sigs)
  case Nil
  assume "sigs \<noteq> []"
  with Nil show ?thesis by simp
next
  case (Cons s rest)
  then show ?thesis
    by (cases s) (simp_all add: resolves_first rejects_first timer_first)
qed

text \<open>
  C7. A call of \<^verbatim>\<open>fetchWithTimeout\<close> arms its timer with the delay given, 10000 ms when
  none is given, and is pending. Whatever the platform delivers afterwards, the first
  signal alone decides the call: an answer fulfils it with that response, a failure of the
  request rejects it with that error, and the timer rejects it with the abort after
  \<^verbatim>\<open>controller.abort()\<close> has run; in each case the timer is no longer armed. A settled call
  takes no other settlement from any later signal, and a call whose timer has fired is
  settled.
\<close>

theorem bounded_executor_settles_once:
  "timer (start None) = Some 10000
   \<and> timer (start (Some t)) = Some t
   \<and> settled (start timeout) = None
   \<and> fetchWithTimeout timeout (FetchResolves r # rest) =
       \<lparr> timer = None, aborted = False, settled = Some (Fulfilled r) \<rparr>
   \<and> fetchWithTimeout timeout (FetchRejects m # rest) =
       \<lparr> timer = None, aborted = False, settled = Some (Rejected m) \<rparr>
   \<and> fetchWithTimeout timeout (TimerFires # rest) =
       \<lparr> timer = None, aborted = True, settled = Some RejectedAbort \<rparr>
   \<and> (settled x \<noteq> None \<longrightarrow> settled (step x s) = settled x)
   \<and> (TimerFires \<in> set sigs \<longrightarrow> settled (fetchWithTimeout timeout sigs) \<noteq> None)"
proof -
  have a: "timer (start None) = Some 10000" by (simp add: start_def CONFIG_TIMEOUT_def)
  have b: "timer (start (Some t)) = Some t" by (simp add: start_def)
  have c: "settled (start timeout) = None" by (simp add: start_def)
  have d: "settled x \<noteq> None \<longrightarrow> settled (step x s) = settled x"
    by (simp add: step_keeps_settled)
  have e: "TimerFires \<in> set sigs \<longrightarrow> settled (fetchWithTimeout timeout sigs) \<noteq> None"
  proof
    assume "TimerFires \<in> set sigs"
    then have "sigs \<noteq> []" by auto
    then show "settled (fetchWithTimeout timeout sigs) \<noteq> None" by (rule any_signal_settles)
  qed
  show ?thesis by (intro conjI a b c d e resolves_first rejects_first timer_first)
qed

text \<open>
  A call whose timer fires and is then answered stays aborted; a call that fails before
  its timer fires is settled.
\<close>

theorem bounded_executor_settles_once_witness:
  "settled (fetchWithTimeout None [TimerFires]) \<noteq> None
   \<and> settled (step (fetchWithTimeout None [TimerFires])
                 (FetchResolves \<lparr> status = 200, body = Parsed JNull \<rparr>))
       = settled (fetchWithTimeout None [TimerFires])
   \<and> TimerFires \<in> set [FetchRejects ''Failed to fetch'', TimerFires]
   \<and> settled (fetchWithTimeout None [FetchRejects ''Failed to fetch'', TimerFires]) \<noteq> None"
proof -
  note t = bounded_executor_settles_once
    [of _ None _ "[]" _ "fetchWithTimeout None [TimerFires]"
        "FetchResolves \<lparr> status = 200, body = Parsed JNull \<rparr>"
        "[FetchRejects ''Failed to fetch'', TimerFires]"]
  from t have 1: "settled (fetchWithTimeout None [TimerFires]) \<noteq> None"
    by simp
  from t 1 have 2: "settled (step (fetchWithTimeout None [TimerFires])
                 (FetchResolves \<lparr> status = 200, body = Parsed JNull \<rparr>))
       = settled (fetchWithTimeout None [TimerFires])"
    by blast
  have 3: "TimerFires \<in> set [FetchRejects ''Failed to fetch'', TimerFires]"
    by simp
  from t 3 have 4:
    "settled (fetchWithTimeout None [FetchRejects ''Failed to fetch'', TimerFires]) \<noteq> None"
    by blast
  show ?thesis using 1 2 3 4 by blast
qed

section \<open>Properties of the cached operations\<close>

lemma awaited_cases:
  "awaited (fetchWithTimeout t []) = None"
  "awaited (fetchWithTimeout t (TimerFires # rest)) = Some (Inl Aborted)"
  "awaited (fetchWithTimeout t (FetchRejects m # rest)) = Some (Inl (NetworkFailure m))"
  "awaited (fetchWithTimeout t (FetchResolves r # rest)) = Some (Inr r)"
  by (simp_all add: awaited_def resolves_first rejects_first timer_first no_signal start_def)

lemma checked_attempt_cases:
  "checked_attempt [] = None"
  "checked_attempt (TimerFires # rest) = Some (Inl Aborted)"
  "checked_attempt (FetchRejects m # rest) = Some (Inl (NetworkFailure m))"
  "checked_attempt (FetchResolves r # rest) =
     (if \<not> ok r then Some (Inl (ApiError (status r))) else read_json r)"
  by (simp_all add: checked_attempt_def awaited_cases)

lemma health_attempt_cases:
  "health_attempt [] = None"
  "health_attempt (TimerFires # rest) = Some (Inl Aborted)"
  "health_attempt (FetchRejects m # rest) = Some (Inl (NetworkFailure m))"
  "health_attempt (FetchResolves r # rest) = read_json r"
  by (simp_all add: health_attempt_def awaited_cases)

lemma read_json_unparsable: "unparsable (body r) \<Longrightarrow> \<exists>m. read_json r = Some (Inl (BadJson m))"
  by (cases "body r") (simp_all add: read_json_def)

lemma unreachable_checked: "unreachable sigs \<Longrightarrow> \<exists>err. checked_attempt sigs = Some (Inl err)"
  by (induction sigs rule: unreachable.induct) (simp_all add: checked_attempt_cases)

lemma unreachable_health: "unreachable sigs \<Longrightarrow> \<exists>err. health_attempt sigs = Some (Inl err)"
  by (induction sigs rule: unreachable.induct) (simp_all add: health_attempt_cases)

lemma bad_status_checked: "bad_status sigs \<Longrightarrow> \<exists>err. checked_attempt sigs = Some (Inl err)"
  by (induction sigs rule: bad_status.induct) (simp_all add: checked_attempt_cases)

lemma bad_payload_checked: "bad_payload sigs \<Longrightarrow> \<exists>err. checked_attempt sigs = Some (Inl err)"
proof (induction sigs rule: bad_payload.induct)
  case (1 r rest)
  then have "unparsable (body r)" by simp
  then obtain m where "read_json r = Some (Inl (BadJson m))"
    using read_json_unparsable by blast
  then show ?case by (simp add: checked_attempt_cases)
qed simp_all

lemma bad_payload_health: "bad_payload sigs \<Longrightarrow> \<exists>m. health_attempt sigs = Some (Inl (BadJson m))"
proof (induction sigs rule: bad_payload.induct)
  case (1 r rest)
  then have "unparsable (body r)" by simp
  then obtain m where "read_json r = Some (Inl (BadJson m))"
    using read_json_unparsable by blast
  then show ?case by (simp add: health_attempt_cases)
qed simp_all

lemma fetched_checked: "fetched sigs d \<Longrightarrow> checked_attempt sigs = Some (Inr d)"
  by (induction sigs d rule: fetched.induct) (simp_all add: checked_attempt_cases read_json_def)

lemma fetched_health: "fetched sigs d \<Longrightarrow> health_attempt sigs = Some (Inr d)"
  by (induction sigs d rule: fetched.induct) (simp_all add: health_attempt_cases read_json_def)

lemma health_hit:
  assumes "cached_fresh c ''health_check'' (now e) = Some d"
  shows "checkCUADHealth e c =
           \<lparr> reply = Some d, cache_after = c, trace = [CacheGet ''health_check''] \<rparr>"
  using assms by (simp add: checkCUADHealth_def Let_def)

lemma health_fails:
  assumes "cached_fresh c ''health_check'' (now e) = None"
    and "health_attempt (signals e) = Some (Inl err)"
  shows "checkCUADHealth e c =
           \<lparr> reply = Some (JObj [(''status'', JStr ''error''),
                                 (''error'', JStr (message (abortText e) err)),
                                 (''fallback'', JBool True)]),
             cache_after = c,
             trace = [CacheGet ''health_check'',
                      NetCall \<lparr> url = CUAD_API_URL @ ''/health'', http_method = ''GET'',
                                payload = None \<rparr>] \<rparr>"
  using assms by (simp add: checkCUADHealth_def Let_def)

lemma health_fetches:
  assumes "cached_fresh c ''health_check'' (now e) = None"
    and "health_attempt (signals e) = Some (Inr d)"
  shows "checkCUADHealth e c =
           \<lparr> reply = Some (JObj [(''status'', JStr ''healthy''), (''data'', d)]),
             cache_after = cache_set c ''health_check''
                             (JObj [(''status'', JStr ''healthy''), (''data'', d)]) (later e),
             trace = [CacheGet ''health_check'',
                      NetCall \<lparr> url = CUAD_API_URL @ ''/health'', http_method = ''GET'',
                                payload = None \<rparr>,
                      CacheSet ''health_check''] \<rparr>"
  using assms by (simp add: checkCUADHealth_def Let_def)

lemma search_hit:
  assumes "cached_fresh c (search_key q n) (now e) = Some d"
  shows "searchCUADSimple e c q n =
           \<lparr> reply = Some d, cache_after = c, trace = [CacheGet (search_key q n)] \<rparr>"
  using assms by (simp add: searchCUADSimple_def Let_def)

lemma search_fails:
  assumes "cached_fresh c (search_key q n) (now e) = None"
    and "checked_attempt (signals e) = Some (Inl err)"
  shows "searchCUADSimple e c q n =
           \<lparr> reply = Some (JArr (map clause_json (getFallbackClauses q n))),
             cache_after = c,
             trace = [CacheGet (search_key q n),
                      NetCall \<lparr> url = CUAD_API_URL @ ''/search'', http_method = ''POST'',
                                payload = Some (JObj [(''query'', JStr q),
                                                      (''n_results'', JInt n),
                                                      (''min_similarity'', JDec ''0.2'')]) \<rparr>] \<rparr>"
  using assms by (simp add: searchCUADSimple_def Let_def)

lemma search_fetches:
  assumes "cached_fresh c (search_key q n) (now e) = None"
    and "checked_attempt (signals e) = Some (Inr d)"
  shows "searchCUADSimple e c q n =
           \<lparr> reply = Some d,
             cache_after = cache_set c (search_key q n) d (later e),
             trace = [CacheGet (search_key q n),
                      NetCall \<lparr> url = CUAD_API_URL @ ''/search'', http_method = ''POST'',
                                payload = Some (JObj [(''query'', JStr q),
                                                      (''n_results'', JInt n),
                                                      (''min_similarity'', JDec ''0.2'')]) \<rparr>,
                      CacheSet (search_key q n)] \<rparr>"
  using assms by (simp add: searchCUADSimple_def Let_def)

lemma analyze_hit:
  assumes "cached_fresh c (analyze_key doc qu) (now e) = Some d"
  shows "analyzeSimple e c doc qu =
           \<lparr> reply = Some d, cache_after = c, trace = [CacheGet (analyze_key doc qu)] \<rparr>"
  using assms by (simp add: analyzeSimple_def Let_def)

lemma analyze_fails:
  assumes "cached_fresh c (analyze_key doc qu) (now e) = None"
    and "checked_attempt (signals e) = Some (Inl err)"
  shows "analyzeSimple e c doc qu =
           \<lparr> reply = Some (JObj [(''status'', JStr ''fallback''),
                                 (''document_preview'', JStr (substring0 doc 200)),
                                 (''relevant_clauses_found'', JInt 0),
                                 (''analysis_prompt'', JStr (analysis_prompt qu)),
                                 (''analysis_ready'', JBool False)]),
             cache_after = c,
             trace = [CacheGet (analyze_key doc qu),
                      NetCall \<lparr> url = CUAD_API_URL @ ''/analyze'', http_method = ''POST'',
                                payload = Some (JObj [(''document_text'',
                                                         JStr (substring0 doc 2000)),
                                                      (''question'', question_json qu),
                                                      (''n_references'', JInt 2)]) \<rparr>] \<rparr>"
  using assms by (simp add: analyzeSimple_def Let_def)

lemma analyze_fetches:
  assumes "cached_fresh c (analyze_key doc qu) (now e) = None"
    and "checked_attempt (signals e) = Some (Inr d)"
  shows "analyzeSimple e c doc qu =
           \<lparr> reply = Some d,
             cache_after = cache_set c (analyze_key doc qu) d (later e),
             trace = [CacheGet (analyze_key doc qu),
                      NetCall \<lparr> url = CUAD_API_URL @ ''/analyze'', http_method = ''POST'',
                                payload = Some (JObj [(''document_text'',
                                                         JStr (substring0 doc 2000)),
                                                      (''question'', question_json qu),
                                                      (''n_references'', JInt 2)]) \<rparr>,
                      CacheSet (analyze_key doc qu)] \<rparr>"
  using assms by (simp add: analyzeSimple_def Let_def)

lemma handler_health: "action rq = ''CHECK_CUAD_HEALTH'' \<Longrightarrow> handler e c rq = checkCUADHealth e c"
  by (simp add: handler_def)

lemma handler_search:
  "action rq = ''SEARCH_CUAD'' \<Longrightarrow>
   handler e c rq = searchCUADSimple e c (query rq) (nResults_or_3 (nResults rq))"
  by (simp add: handler_def)

lemma handler_analyze:
  "action rq = ''ANALYZE_WITH_CUAD'' \<Longrightarrow>
   handler e c rq = analyzeSimple e c (documentText rq) (question rq)"
  by (simp add: handler_def)

lemma handler_enhanced:
  "action rq = ''GET_ENHANCED_RESPONSE'' \<Longrightarrow>
   handler e c rq =
     (analyzeSimple e c (documentText rq) (question rq))
       \<lparr> reply := map_option (enhanced_response e)
                    (reply (analyzeSimple e c (documentText rq) (question rq))) \<rparr>"
  by (simp add: handler_def Let_def)

lemma cached_fresh_after_set:
  "cached_fresh (cache_set c k d t) k t' = (if t' - t < CACHE_TTL then Some d else None)"
  by (simp add: cached_fresh_def cache_set_def)

lemma cached_fresh_cong: "c2 k = c1 k \<Longrightarrow> cached_fresh c2 k t = cached_fresh c1 k t"
  by (simp add: cached_fresh_def)

section \<open>Properties of the cache\<close>

lemma health_cache_after:
  "cache_after (checkCUADHealth e c) = c \<or>
   (\<exists>d. cache_after (checkCUADHealth e c) = cache_set c ''health_check'' d (later e))"
  by (auto simp: checkCUADHealth_def Let_def split: option.splits sum.splits)

lemma search_cache_after:
  "cache_after (searchCUADSimple e c q n) = c \<or>
   (\<exists>d. cache_after (searchCUADSimple e c q n) = cache_set c (search_key q n) d (later e))"
  by (auto simp: searchCUADSimple_def Let_def split: option.splits sum.splits)

lemma analyze_cache_after:
  "cache_after (analyzeSimple e c doc qu) = c \<or>
   (\<exists>d. cache_after (analyzeSimple e c doc qu) = cache_set c (analyze_key doc qu) d (later e))"
  by (auto simp: analyzeSimple_def Let_def split: option.splits sum.splits)

lemma handler_cache_after:
  "cache_after (handler e c rq) = c \<or>
   (\<exists>k d. cache_after (handler e c rq) = cache_set c k d (later e))"
proof -
  consider (h) "action rq = ''CHECK_CUAD_HEALTH''" | (s) "action rq = ''SEARCH_CUAD''"
    | (a) "action rq = ''ANALYZE_WITH_CUAD''" | (x) "action rq = ''GET_ENHANCED_RESPONSE''"
    | (o) "action rq \<noteq> ''CHECK_CUAD_HEALTH''" "action rq \<noteq> ''SEARCH_CUAD''"
          "action rq \<noteq> ''ANALYZE_WITH_CUAD''" "action rq \<noteq> ''GET_ENHANCED_RESPONSE''"
    by blast
  then show ?thesis
  proof cases
    case h
    then show ?thesis using health_cache_after [of e c] by (auto simp: handler_health)
  next
    case s
    then show ?thesis
      using search_cache_after [of e c "query rq" "nResults_or_3 (nResults rq)"]
      by (auto simp: handler_search)
  next
    case a
    then show ?thesis
      using analyze_cache_after [of e c "documentText rq" "question rq"]
      by (auto simp: handler_analyze)
  next
    case x
    then show ?thesis
      using analyze_cache_after [of e c "documentText rq" "question rq"]
      by (auto simp: handler_enhanced)
  next
    case o
    then show ?thesis by (simp add: handler_def)
  qed
qed

text \<open>
  C3. A lookup at time \<open>t\<close> yields a value exactly when the key has an entry whose
  timestamp is less than 60000 ms before \<open>t\<close>, and then it is the data of that entry; it
  yields nothing otherwise. A store puts the new entry under its key whatever was there
  and touches no other key. No request deletes an entry: after any request every key
  either has the entry it had before, stale or not, or one stored by this request.
\<close>

theorem ttl_cache_lookup_and_store:
  "(cached_fresh c k t = Some v \<longleftrightarrow>
      (\<exists>en. c k = Some en \<and> t - timestamp en < 60000 \<and> v = data en))
   \<and> (cached_fresh c k t = None \<longleftrightarrow>
      (c k = None \<or> (\<exists>en. c k = Some en \<and> \<not> t - timestamp en < 60000)))
   \<and> cache_set c k d t k = Some \<lparr> data = d, timestamp = t \<rparr>
   \<and> (\<forall>k'. k' \<noteq> k \<longrightarrow> cache_set c k d t k' = c k')
   \<and> (\<forall>k'. cache_after (handler e c rq) k' = c k' \<or>
            (\<exists>d'. cache_after (handler e c rq) k' = Some \<lparr> data = d', timestamp = later e \<rparr>))"
proof -
  have a: "cached_fresh c k t = Some v \<longleftrightarrow>
      (\<exists>en. c k = Some en \<and> t - timestamp en < 60000 \<and> v = data en)"
    by (cases "c k") (auto simp: cached_fresh_def CACHE_TTL_def)
  have b: "cached_fresh c k t = None \<longleftrightarrow>
      (c k = None \<or> (\<exists>en. c k = Some en \<and> \<not> t - timestamp en < 60000))"
    by (cases "c k") (auto simp: cached_fresh_def CACHE_TTL_def)
  have s1: "cache_set c k d t k = Some \<lparr> data = d, timestamp = t \<rparr>"
    by (simp add: cache_set_def)
  have s2: "\<forall>k'. k' \<noteq> k \<longrightarrow> cache_set c k d t k' = c k'"
    by (simp add: cache_set_def)
  have h: "\<forall>k'. cache_after (handler e c rq) k' = c k' \<or>
            (\<exists>d'. cache_after (handler e c rq) k' = Some \<lparr> data = d', timestamp = later e \<rparr>)"
  proof
    fix k'
    from handler_cache_after [of e c rq]
    show "cache_after (handler e c rq) k' = c k' \<or>
            (\<exists>d'. cache_after (handler e c rq) k' = Some \<lparr> data = d', timestamp = later e \<rparr>)"
    proof
      assume "cache_after (handler e c rq) = c"
      then show ?thesis by simp
    next
      assume "\<exists>k d. cache_after (handler e c rq) = cache_set c k d (later e)"
      then obtain k0 d0 where "cache_after (handler e c rq) = cache_set c k0 d0 (later e)"
        by blast
      then show ?thesis by (cases "k' = k0") (simp_all add: cache_set_def)
    qed
  qed
  show ?thesis by (intro conjI a b s1 s2 h)
qed

text \<open>
  An entry stored at time 0 is served at 59999 ms and not at 60000 ms; storing under one
  key leaves another key without entry.
\<close>

theorem ttl_cache_lookup_and_store_witness:
  "cached_fresh (Map.empty(''health_check'' \<mapsto> \<lparr> data = JNull, timestamp = 0 \<rparr>))
       ''health_check'' 59999 = Some JNull
   \<and> cached_fresh (Map.empty(''health_check'' \<mapsto> \<lparr> data = JNull, timestamp = 0 \<rparr>))
       ''health_check'' 60000 = None
   \<and> ''search_a_3'' \<noteq> ''health_check''
   \<and> cache_set (Map.empty(''health_check'' \<mapsto> \<lparr> data = JNull, timestamp = 0 \<rparr>))
       ''health_check'' (JBool True) 7 ''search_a_3'' = None"
proof -
  let ?c = "Map.empty(''health_check'' \<mapsto> \<lparr> data = JNull, timestamp = 0 \<rparr>)"
  note t1 = ttl_cache_lookup_and_store [of ?c "''health_check''" 59999 JNull "JBool True"]
  note t2 = ttl_cache_lookup_and_store [of ?c "''health_check''" 60000 JNull "JBool True"]
  from t1 have 1: "cached_fresh ?c ''health_check'' 59999 = Some JNull"
    by simp
  from t2 have 2: "cached_fresh ?c ''health_check'' 60000 = None"
    by simp
  have 3: "''search_a_3'' \<noteq> ''health_check''"
    by simp
  from t1 have "\<forall>k'. k' \<noteq> ''health_check'' \<longrightarrow>
                  cache_set ?c ''health_check'' (JBool True) 59999 k' = ?c k'"
    by blast
  have "\<forall>k'. k' \<noteq> ''health_check'' \<longrightarrow>
                  cache_set ?c ''health_check'' (JBool True) 7 k' = ?c k'"
    using ttl_cache_lookup_and_store [of ?c "''health_check''" 7 JNull "JBool True"] by blast
  with 3 have 4: "cache_set ?c ''health_check'' (JBool True) 7 ''search_a_3'' = None"
    by simp
  show ?thesis using 1 2 3 4 by blast
qed

section \<open>What a request does to the cache and the network\<close>

lemma checked_attempt_Inr:
  assumes "checked_attempt sigs = Some (Inr d)"
  shows "\<exists>resp rest. sigs = FetchResolves resp # rest \<and> ok resp \<and> body resp = Parsed d"
proof (cases sigs)
  case Nil
  with assms show ?thesis by (simp add: checked_attempt_cases)
next
  case (Cons s rest)
  show ?thesis
  proof (cases s)
    case TimerFires
    with Cons assms show ?thesis by (simp add: checked_attempt_cases)
  next
    case (FetchResolves resp)
    with Cons assms have "ok resp \<and> body resp = Parsed d"
      by (cases "body resp") (simp_all add: checked_attempt_cases read_json_def split: if_splits)
    with Cons FetchResolves show ?thesis by simp
  next
    case (FetchRejects m)
    with Cons assms show ?thesis by (simp add: checked_attempt_cases)
  qed
qed

lemma health_attempt_Inr:
  assumes "health_attempt sigs = Some (Inr d)"
  shows "\<exists>resp rest. sigs = FetchResolves resp # rest \<and> body resp = Parsed d"
proof (cases sigs)
  case Nil
  with assms show ?thesis by (simp add: health_attempt_cases)
next
  case (Cons s rest)
  show ?thesis
  proof (cases s)
    case TimerFires
    with Cons assms show ?thesis by (simp add: health_attempt_cases)
  next
    case (FetchResolves resp)
    with Cons assms have "body resp = Parsed d"
      by (cases "body resp") (simp_all add: health_attempt_cases read_json_def)
    with Cons FetchResolves show ?thesis by simp
  next
    case (FetchRejects m)
    with Cons assms show ?thesis by (simp add: health_attempt_cases)
  qed
qed

lemma health_effects:
  "cache_writes (trace (checkCUADHealth e c)) = [] \<and> cache_after (checkCUADHealth e c) = c
   \<or> (\<exists>d. health_attempt (signals e) = Some (Inr d)
          \<and> cached_fresh c ''health_check'' (now e) = None
          \<and> cache_writes (trace (checkCUADHealth e c)) = [''health_check'']
          \<and> cache_after (checkCUADHealth e c) =
              cache_set c ''health_check''
                (JObj [(''status'', JStr ''healthy''), (''data'', d)]) (later e))"
  by (auto simp: checkCUADHealth_def Let_def split: option.splits sum.splits)

lemma search_effects:
  "cache_writes (trace (searchCUADSimple e c q n)) = [] \<and> cache_after (searchCUADSimple e c q n) = c
   \<or> (\<exists>d. checked_attempt (signals e) = Some (Inr d)
          \<and> cached_fresh c (search_key q n) (now e) = None
          \<and> cache_writes (trace (searchCUADSimple e c q n)) = [search_key q n]
          \<and> cache_after (searchCUADSimple e c q n) = cache_set c (search_key q n) d (later e))"
  by (auto simp: searchCUADSimple_def Let_def split: option.splits sum.splits)

lemma analyze_effects:
  "cache_writes (trace (analyzeSimple e c doc qu)) = [] \<and> cache_after (analyzeSimple e c doc qu) = c
   \<or> (\<exists>d. checked_attempt (signals e) = Some (Inr d)
          \<and> cached_fresh c (analyze_key doc qu) (now e) = None
          \<and> cache_writes (trace (analyzeSimple e c doc qu)) = [analyze_key doc qu]
          \<and> cache_after (analyzeSimple e c doc qu) = cache_set c (analyze_key doc qu) d (later e))"
  by (auto simp: analyzeSimple_def Let_def split: option.splits sum.splits)

lemma handler_direct:
  assumes "action rq \<noteq> ''CHECK_CUAD_HEALTH''" "action rq \<noteq> ''SEARCH_CUAD''"
    "action rq \<noteq> ''ANALYZE_WITH_CUAD''" "action rq \<noteq> ''GET_ENHANCED_RESPONSE''"
  shows "cache_after (handler e c rq) = c \<and> trace (handler e c rq) = []"
  using assms by (simp add: handler_def)

lemma handler_effects:
  "cache_writes (trace (handler e c rq)) = [] \<and> cache_after (handler e c rq) = c
   \<or> (\<exists>k d resp rest.
          signals e = FetchResolves resp # rest \<and> body resp = Parsed d
          \<and> (action rq = ''CHECK_CUAD_HEALTH'' \<or> ok resp)
          \<and> cached_fresh c k (now e) = None
          \<and> cache_writes (trace (handler e c rq)) = [k]
          \<and> cache_after (handler e c rq) =
              cache_set c k
                (if action rq = ''CHECK_CUAD_HEALTH''
                 then JObj [(''status'', JStr ''healthy''), (''data'', d)] else d) (later e))"
proof -
  consider (h) "action rq = ''CHECK_CUAD_HEALTH''" | (s) "action rq = ''SEARCH_CUAD''"
    | (a) "action rq = ''ANALYZE_WITH_CUAD''" | (x) "action rq = ''GET_ENHANCED_RESPONSE''"
    | (o) "action rq \<noteq> ''CHECK_CUAD_HEALTH''" "action rq \<noteq> ''SEARCH_CUAD''"
          "action rq \<noteq> ''ANALYZE_WITH_CUAD''" "action rq \<noteq> ''GET_ENHANCED_RESPONSE''"
    by blast
  then show ?thesis
  proof cases
    case h
    from health_effects [of e c] show ?thesis
    proof
      assume "cache_writes (trace (checkCUADHealth e c)) = [] \<and> cache_after (checkCUADHealth e c) = c"
      with h show ?thesis by (simp add: handler_health)
    next
      assume "\<exists>d. health_attempt (signals e) = Some (Inr d)
          \<and> cached_fresh c ''health_check'' (now e) = None
          \<and> cache_writes (trace (checkCUADHealth e c)) = [''health_check'']
          \<and> cache_after (checkCUADHealth e c) =
              cache_set c ''health_check''
                (JObj [(''status'', JStr ''healthy''), (''data'', d)]) (later e)"
      then obtain d where d: "health_attempt (signals e) = Some (Inr d)"
          "cached_fresh c ''health_check'' (now e) = None"
          "cache_writes (trace (checkCUADHealth e c)) = [''health_check'']"
          "cache_after (checkCUADHealth e c) =
              cache_set c ''health_check''
                (JObj [(''status'', JStr ''healthy''), (''data'', d)]) (later e)"
        by blast
      from d(1) obtain resp rest where "signals e = FetchResolves resp # rest" "body resp = Parsed d"
        using health_attempt_Inr by blast
      with h d show ?thesis by (simp add: handler_health)
    qed
  next
    case s
    from search_effects [of e c "query rq" "nResults_or_3 (nResults rq)"] show ?thesis
    proof
      assume "cache_writes (trace (searchCUADSimple e c (query rq) (nResults_or_3 (nResults rq)))) = []
              \<and> cache_after (searchCUADSimple e c (query rq) (nResults_or_3 (nResults rq))) = c"
      with s show ?thesis by (simp add: handler_search)
    next
      assume "\<exists>d. checked_attempt (signals e) = Some (Inr d)
          \<and> cached_fresh c (search_key (query rq) (nResults_or_3 (nResults rq))) (now e) = None
          \<and> cache_writes (trace (searchCUADSimple e c (query rq) (nResults_or_3 (nResults rq))))
              = [search_key (query rq) (nResults_or_3 (nResults rq))]
          \<and> cache_after (searchCUADSimple e c (query rq) (nResults_or_3 (nResults rq)))
              = cache_set c (search_key (query rq) (nResults_or_3 (nResults rq))) d (later e)"
      then obtain d where d: "checked_attempt (signals e) = Some (Inr d)"
          "cached_fresh c (search_key (query rq) (nResults_or_3 (nResults rq))) (now e) = None"
          "cache_writes (trace (searchCUADSimple e c (query rq) (nResults_or_3 (nResults rq))))
              = [search_key (query rq) (nResults_or_3 (nResults rq))]"
          "cache_after (searchCUADSimple e c (query rq) (nResults_or_3 (nResults rq)))
              = cache_set c (search_key (query rq) (nResults_or_3 (nResults rq))) d (later e)"
        by blast
      from d(1) obtain resp rest where
        "signals e = FetchResolves resp # rest" "ok resp" "body resp = Parsed d"
        using checked_attempt_Inr by blast
      with s d show ?thesis by (simp add: handler_search)
    qed
  next
    case a
    from analyze_effects [of e c "documentText rq" "question rq"] show ?thesis
    proof
      assume "cache_writes (trace (analyzeSimple e c (documentText rq) (question rq))) = []
              \<and> cache_after (analyzeSimple e c (documentText rq) (question rq)) = c"
      with a show ?thesis by (simp add: handler_analyze)
    next
      assume "\<exists>d. checked_attempt (signals e) = Some (Inr d)
          \<and> cached_fresh c (analyze_key (documentText rq) (question rq)) (now e) = None
          \<and> cache_writes (trace (analyzeSimple e c (documentText rq) (question rq)))
              = [analyze_key (documentText rq) (question rq)]
          \<and> cache_after (analyzeSimple e c (documentText rq) (question rq))
              = cache_set c (analyze_key (documentText rq) (question rq)) d (later e)"
      then obtain d where d: "checked_attempt (signals e) = Some (Inr d)"
          "cached_fresh c (analyze_key (documentText rq) (question rq)) (now e) = None"
          "cache_writes (trace (analyzeSimple e c (documentText rq) (question rq)))
              = [analyze_key (documentText rq) (question rq)]"
          "cache_after (analyzeSimple e c (documentText rq) (question rq))
              = cache_set c (analyze_key (documentText rq) (question rq)) d (later e)"
        by blast
      from d(1) obtain resp rest where
        "signals e = FetchResolves resp # rest" "ok resp" "body resp = Parsed d"
        using checked_attempt_Inr by blast
      with a d show ?thesis by (simp add: handler_analyze)
    qed
  next
    case x
    from analyze_effects [of e c "documentText rq" "question rq"] show ?thesis
    proof
      assume "cache_writes (trace (analyzeSimple e c (documentText rq) (question rq))) = []
              \<and> cache_after (analyzeSimple e c (documentText rq) (question rq)) = c"
      with x show ?thesis by (simp add: handler_enhanced)
    next
      assume "\<exists>d. checked_attempt (signals e) = Some (Inr d)
          \<and> cached_fresh c (analyze_key (documentText rq) (question rq)) (now e) = None
          \<and> cache_writes (trace (analyzeSimple e c (documentText rq) (question rq)))
              = [analyze_key (documentText rq) (question rq)]
          \<and> cache_after (analyzeSimple e c (documentText rq) (question rq))
              = cache_set c (analyze_key (documentText rq) (question rq)) d (later e)"
      then obtain d where d: "checked_attempt (signals e) = Some (Inr d)"
          "cached_fresh c (analyze_key (documentText rq) (question rq)) (now e) = None"
          "cache_writes (trace (analyzeSimple e c (documentText rq) (question rq)))
              = [analyze_key (documentText rq) (question rq)]"
          "cache_after (analyzeSimple e c (documentText rq) (question rq))
              = cache_set c (analyze_key (documentText rq) (question rq)) d (later e)"
        by blast
      from d(1) obtain resp rest where
        "signals e = FetchResolves resp # rest" "ok resp" "body resp = Parsed d"
        using checked_attempt_Inr by blast
      with x d show ?thesis by (simp add: handler_enhanced)
    qed
  next
    case o
    then show ?thesis using handler_direct [of rq e c] by simp
  qed
qed

text \<open>
  What every request does to the cache. It leaves the cache as it was and writes nothing,
  or it writes exactly one entry, and then the backend has answered its call with a
  payload that could be parsed (and, except for the health check, with \<^verbatim>\<open>response.ok\<close>),
  the key had no fresh entry, and the entry holds that payload (wrapped as
  \<^verbatim>\<open>{status: 'healthy', data}\<close> by the health check) with the time of the store. A call that
  ends in a \<^verbatim>\<open>catch\<close> block (timeout, network error, unparsable payload, and for search
  and analyze a bad status) writes nothing and leaves the cache unchanged. The health
  check answered with a bad status is not among them: see the last section.
\<close>

lemma cache_written_only_by_parsed_answer:
  "(cache_writes (trace (handler e c rq)) = [] \<and> cache_after (handler e c rq) = c
    \<or> (\<exists>k d resp rest.
          signals e = FetchResolves resp # rest \<and> body resp = Parsed d
          \<and> (action rq = ''CHECK_CUAD_HEALTH'' \<or> ok resp)
          \<and> cached_fresh c k (now e) = None
          \<and> cache_writes (trace (handler e c rq)) = [k]
          \<and> cache_after (handler e c rq) =
              cache_set c k
                (if action rq = ''CHECK_CUAD_HEALTH''
                 then JObj [(''status'', JStr ''healthy''), (''data'', d)] else d) (later e)))
   \<and> (action rq = ''SEARCH_CUAD''
        \<and> cached_fresh c (search_key (query rq) (nResults_or_3 (nResults rq))) (now e) = None
        \<and> fetched (signals e) d1
      \<longrightarrow> cache_writes (trace (handler e c rq)) =
            [search_key (query rq) (nResults_or_3 (nResults rq))]
        \<and> cache_after (handler e c rq) =
            cache_set c (search_key (query rq) (nResults_or_3 (nResults rq))) d1 (later e))
   \<and> (action rq = ''ANALYZE_WITH_CUAD''
        \<and> cached_fresh c (analyze_key (documentText rq) (question rq)) (now e) = None
        \<and> fetched (signals e) d2
      \<longrightarrow> cache_writes (trace (handler e c rq)) = [analyze_key (documentText rq) (question rq)]
        \<and> cache_after (handler e c rq) =
            cache_set c (analyze_key (documentText rq) (question rq)) d2 (later e))
   \<and> (action rq = ''CHECK_CUAD_HEALTH''
        \<and> cached_fresh c ''health_check'' (now e) = None
        \<and> signals e = FetchResolves resp3 # rest3 \<and> body resp3 = Parsed d3
      \<longrightarrow> cache_writes (trace (handler e c rq)) = [''health_check'']
        \<and> cache_after (handler e c rq) =
            cache_set c ''health_check''
              (JObj [(''status'', JStr ''healthy''), (''data'', d3)]) (later e))
   \<and> (unreachable (signals e) \<or> bad_payload (signals e)
        \<or> (bad_status (signals e) \<and> action rq \<noteq> ''CHECK_CUAD_HEALTH'')
      \<longrightarrow> cache_writes (trace (handler e c rq)) = [] \<and> cache_after (handler e c rq) = c)"
proof -
  note dich = handler_effects [of e c rq]
  have s: "action rq = ''SEARCH_CUAD''
        \<and> cached_fresh c (search_key (query rq) (nResults_or_3 (nResults rq))) (now e) = None
        \<and> fetched (signals e) d1
      \<longrightarrow> cache_writes (trace (handler e c rq)) =
            [search_key (query rq) (nResults_or_3 (nResults rq))]
        \<and> cache_after (handler e c rq) =
            cache_set c (search_key (query rq) (nResults_or_3 (nResults rq))) d1 (later e)"
  proof
    assume asm: "action rq = ''SEARCH_CUAD''
        \<and> cached_fresh c (search_key (query rq) (nResults_or_3 (nResults rq))) (now e) = None
        \<and> fetched (signals e) d1"
    then have att: "checked_attempt (signals e) = Some (Inr d1)"
      by (simp add: fetched_checked)
    from asm have miss: "cached_fresh c (search_key (query rq) (nResults_or_3 (nResults rq))) (now e) = None"
      by simp
    from asm show "cache_writes (trace (handler e c rq)) =
            [search_key (query rq) (nResults_or_3 (nResults rq))]
        \<and> cache_after (handler e c rq) =
            cache_set c (search_key (query rq) (nResults_or_3 (nResults rq))) d1 (later e)"
      by (simp add: handler_search search_fetches [OF miss att])
  qed
  have a: "action rq = ''ANALYZE_WITH_CUAD''
        \<and> cached_fresh c (analyze_key (documentText rq) (question rq)) (now e) = None
        \<and> fetched (signals e) d2
      \<longrightarrow> cache_writes (trace (handler e c rq)) = [analyze_key (documentText rq) (question rq)]
        \<and> cache_after (handler e c rq) =
            cache_set c (analyze_key (documentText rq) (question rq)) d2 (later e)"
  proof
    assume asm: "action rq = ''ANALYZE_WITH_CUAD''
        \<and> cached_fresh c (analyze_key (documentText rq) (question rq)) (now e) = None
        \<and> fetched (signals e) d2"
    then have att: "checked_attempt (signals e) = Some (Inr d2)"
      by (simp add: fetched_checked)
    from asm have miss: "cached_fresh c (analyze_key (documentText rq) (question rq)) (now e) = None"
      by simp
    from asm show "cache_writes (trace (handler e c rq)) = [analyze_key (documentText rq) (question rq)]
        \<and> cache_after (handler e c rq) =
            cache_set c (analyze_key (documentText rq) (question rq)) d2 (later e)"
      by (simp add: handler_analyze analyze_fetches [OF miss att])
  qed
  have h: "action rq = ''CHECK_CUAD_HEALTH''
        \<and> cached_fresh c ''health_check'' (now e) = None
        \<and> signals e = FetchResolves resp3 # rest3 \<and> body resp3 = Parsed d3
      \<longrightarrow> cache_writes (trace (handler e c rq)) = [''health_check'']
        \<and> cache_after (handler e c rq) =
            cache_set c ''health_check''
              (JObj [(''status'', JStr ''healthy''), (''data'', d3)]) (later e)"
  proof
    assume asm: "action rq = ''CHECK_CUAD_HEALTH''
        \<and> cached_fresh c ''health_check'' (now e) = None
        \<and> signals e = FetchResolves resp3 # rest3 \<and> body resp3 = Parsed d3"
    then have "health_attempt (signals e) = Some (Inr d3)"
      by (simp add: health_attempt_cases read_json_def)
    note att = this
    from asm have miss: "cached_fresh c ''health_check'' (now e) = None"
      by simp
    from asm show "cache_writes (trace (handler e c rq)) = [''health_check'']
        \<and> cache_after (handler e c rq) =
            cache_set c ''health_check''
              (JObj [(''status'', JStr ''healthy''), (''data'', d3)]) (later e)"
      by (simp add: handler_health health_fetches [OF miss att])
  qed
  have f: "unreachable (signals e) \<or> bad_payload (signals e)
        \<or> (bad_status (signals e) \<and> action rq \<noteq> ''CHECK_CUAD_HEALTH'')
      \<longrightarrow> cache_writes (trace (handler e c rq)) = [] \<and> cache_after (handler e c rq) = c"
  proof
    assume fail: "unreachable (signals e) \<or> bad_payload (signals e)
        \<or> (bad_status (signals e) \<and> action rq \<noteq> ''CHECK_CUAD_HEALTH'')"
    from dich show "cache_writes (trace (handler e c rq)) = [] \<and> cache_after (handler e c rq) = c"
    proof
      assume "cache_writes (trace (handler e c rq)) = [] \<and> cache_after (handler e c rq) = c"
      then show ?thesis .
    next
      assume "\<exists>k d resp rest.
          signals e = FetchResolves resp # rest \<and> body resp = Parsed d
          \<and> (action rq = ''CHECK_CUAD_HEALTH'' \<or> ok resp)
          \<and> cached_fresh c k (now e) = None
          \<and> cache_writes (trace (handler e c rq)) = [k]
          \<and> cache_after (handler e c rq) =
              cache_set c k
                (if action rq = ''CHECK_CUAD_HEALTH''
                 then JObj [(''status'', JStr ''healthy''), (''data'', d)] else d) (later e)"
      then obtain d resp rest where
        "signals e = FetchResolves resp # rest" "body resp = Parsed d"
        "action rq = ''CHECK_CUAD_HEALTH'' \<or> ok resp"
        by blast
      with fail have False by auto
      then show ?thesis ..
    qed
  qed
  show ?thesis by (intro conjI dich s a h f)
qed

text \<open>
  A search on the empty cache: answered by the backend, it stores the answer; timed out,
  it leaves the cache empty.
\<close>

lemma cache_written_only_by_parsed_answer_example:
  "fetched [FetchResolves \<lparr> status = 200, body = Parsed (JArr []) \<rparr>] (JArr [])
   \<and> cache_after
       (handler \<lparr> now = 0, signals = [FetchResolves \<lparr> status = 200, body = Parsed (JArr []) \<rparr>],
                  later = 40, abortText = ''The user aborted a request.'',
                  nullReadText = ''Cannot read properties of null'',
                  toPrimitiveText = ''Cannot convert object to primitive value'' \<rparr>
          Map.empty
          \<lparr> action = ''SEARCH_CUAD'', query = ''rent'', nResults = None, documentText = [],
            question = None \<rparr>)
       = cache_set Map.empty (search_key ''rent'' 3) (JArr []) 40
   \<and> unreachable [TimerFires]
   \<and> cache_after
       (handler \<lparr> now = 0, signals = [TimerFires], later = 10000,
                  abortText = ''The user aborted a request.'',
                  nullReadText = ''Cannot read properties of null'',
                  toPrimitiveText = ''Cannot convert object to primitive value'' \<rparr>
          Map.empty
          \<lparr> action = ''SEARCH_CUAD'', query = ''rent'', nResults = None, documentText = [],
            question = None \<rparr>)
       = Map.empty"
proof -
  let ?ok = "\<lparr> now = 0, signals = [FetchResolves \<lparr> status = 200, body = Parsed (JArr []) \<rparr>],
                  later = 40, abortText = ''The user aborted a request.'',
                  nullReadText = ''Cannot read properties of null'',
                  toPrimitiveText = ''Cannot convert object to primitive value'' \<rparr>"
  let ?down = "\<lparr> now = 0, signals = [TimerFires], later = 10000,
                  abortText = ''The user aborted a request.'',
                  nullReadText = ''Cannot read properties of null'',
                  toPrimitiveText = ''Cannot convert object to primitive value'' \<rparr>"
  let ?rq = "\<lparr> action = ''SEARCH_CUAD'', query = ''rent'', nResults = None, documentText = [],
            question = None \<rparr>"
  have f: "fetched [FetchResolves \<lparr> status = 200, body = Parsed (JArr []) \<rparr>] (JArr [])"
    by (simp add: ok_def)
  have u: "unreachable [TimerFires]" by simp
  have miss: "cached_fresh Map.empty (search_key ''rent'' 3) 0 = None"
    by (simp add: cached_fresh_def)
  have n3: "nResults_or_3 None = 3" by (simp add: nResults_or_3_def)
  from cache_written_only_by_parsed_answer [of ?ok Map.empty ?rq "JArr []"] f miss n3
  have 1: "cache_after (handler ?ok Map.empty ?rq)
            = cache_set Map.empty (search_key ''rent'' 3) (JArr []) 40"
    by simp
  from cache_written_only_by_parsed_answer [of ?down Map.empty ?rq] u
  have 2: "cache_after (handler ?down Map.empty ?rq) = Map.empty"
    by simp
  show ?thesis using f u 1 2 by blast
qed

section \<open>Answers when the backend fails\<close>

lemma slice0_subset: "set (slice0 xs n) \<subseteq> set xs"
  by (simp add: slice0_def set_take_subset)

lemma fallback_from_subset: "set (fallback_from catalog q n) \<subseteq> set catalog"
proof -
  have "set (slice0 (filter (clause_matches (toLowerCase q)) catalog) n)
          \<subseteq> set (filter (clause_matches (toLowerCase q)) catalog)"
    by (rule slice0_subset)
  also have "\<dots> \<subseteq> set catalog" by simp
  finally have a: "set (slice0 (filter (clause_matches (toLowerCase q)) catalog) n) \<subseteq> set catalog" .
  have b: "set (slice0 catalog n) \<subseteq> set catalog" by (rule slice0_subset)
  show ?thesis using a b by (simp add: fallback_from_def Let_def)
qed

lemma fallback_sources:
  assumes "cl \<in> set (getFallbackClauses q n)"
  shows "source cl = ''fallback''"
proof -
  have "cl \<in> set sampleClauses"
    using assms fallback_from_subset [of sampleClauses q n] by (auto simp: getFallbackClauses_def)
  then show ?thesis by (auto simp: sampleClauses_def)
qed

lemma failure_checked:
  assumes "unreachable sigs \<or> bad_status sigs \<or> bad_payload sigs"
  shows "\<exists>err. checked_attempt sigs = Some (Inl err)"
  using assms unreachable_checked bad_status_checked bad_payload_checked by blast

lemma failure_health:
  assumes "unreachable sigs \<or> bad_payload sigs"
  shows "\<exists>err. health_attempt sigs = Some (Inl err)"
  using assms unreachable_health bad_payload_health by blast

lemma search_fallback_reply:
  assumes "cached_fresh c (search_key q n) (now e) = None"
    and "unreachable (signals e) \<or> bad_status (signals e) \<or> bad_payload (signals e)"
  shows "reply (searchCUADSimple e c q n) = Some (JArr (map clause_json (getFallbackClauses q n)))"
proof -
  obtain err where "checked_attempt (signals e) = Some (Inl err)"
    using assms(2) failure_checked by blast
  then show ?thesis by (simp add: search_fails [OF assms(1)])
qed

lemma analyze_fallback_reply:
  assumes "cached_fresh c (analyze_key doc qu) (now e) = None"
    and "unreachable (signals e) \<or> bad_status (signals e) \<or> bad_payload (signals e)"
  shows "reply (analyzeSimple e c doc qu) =
           Some (JObj [(''status'', JStr ''fallback''),
                       (''document_preview'', JStr (substring0 doc 200)),
                       (''relevant_clauses_found'', JInt 0),
                       (''analysis_prompt'', JStr (analysis_prompt qu)),
                       (''analysis_ready'', JBool False)])"
proof -
  obtain err where "checked_attempt (signals e) = Some (Inl err)"
    using assms(2) failure_checked by blast
  then show ?thesis by (simp add: analyze_fails [OF assms(1)])
qed

lemma health_fallback_reply:
  assumes "cached_fresh c ''health_check'' (now e) = None"
    and "unreachable (signals e) \<or> bad_payload (signals e)"
  shows "\<exists>msg. reply (checkCUADHealth e c) =
           Some (JObj [(''status'', JStr ''error''), (''error'', JStr msg),
                       (''fallback'', JBool True)])"
proof -
  obtain err where "health_attempt (signals e) = Some (Inl err)"
    using assms(2) failure_health by blast
  then show ?thesis by (simp add: health_fails [OF assms(1)])
qed

lemma unreachable_keeps_cache:
  assumes "unreachable (signals e)"
  shows "cache_after (handler e c rq) = c"
proof -
  from handler_effects [of e c rq] show ?thesis
  proof
    assume "cache_writes (trace (handler e c rq)) = [] \<and> cache_after (handler e c rq) = c"
    then show ?thesis by simp
  next
    assume "\<exists>k d resp rest.
          signals e = FetchResolves resp # rest \<and> body resp = Parsed d
          \<and> (action rq = ''CHECK_CUAD_HEALTH'' \<or> ok resp)
          \<and> cached_fresh c k (now e) = None
          \<and> cache_writes (trace (handler e c rq)) = [k]
          \<and> cache_after (handler e c rq) =
              cache_set c k
                (if action rq = ''CHECK_CUAD_HEALTH''
                 then JObj [(''status'', JStr ''healthy''), (''data'', d)] else d) (later e)"
    then obtain resp rest where "signals e = FetchResolves resp # rest" by blast
    with assms have False by simp
    then show ?thesis ..
  qed
qed

lemma serve_down: "down_throughout history \<Longrightarrow> serve c history = c"
  by (induction c history rule: serve.induct) (simp_all add: unreachable_keeps_cache)

lemma empty_cache_miss: "cached_fresh Map.empty k t = None"
  by (simp add: cached_fresh_def)

text \<open>
  \<^verbatim>\<open>checkCUADHealth\<close> does not test \<^verbatim>\<open>response.ok\<close>, unlike the search and the analysis:
  an answer with a bad status and a body that parses is reported as healthy and stored.
\<close>

lemma health_check_ignores_status:
  assumes "cached_fresh c ''health_check'' (now e) = None"
    and "signals e = FetchResolves resp # rest" and "body resp = Parsed d"
  shows "reply (checkCUADHealth e c) =
           Some (JObj [(''status'', JStr ''healthy''), (''data'', d)])
       \<and> cache_writes (trace (checkCUADHealth e c)) = [''health_check'']"
proof -
  have "health_attempt (signals e) = Some (Inr d)"
    using assms(2,3) by (simp add: health_attempt_cases read_json_def)
  then show ?thesis by (simp add: health_fetches [OF assms(1)])
qed

text \<open>
  C1, as the script has it. When a search or an analyze request finds no fresh entry and
  its backend call fails (timeout, network error, bad status or unparsable payload), the
  handler answers with the fallback of the action: the fallback clauses, each with
  \<^verbatim>\<open>metadata.source\<close> equal to \<^verbatim>\<open>"fallback"\<close>, or the object with \<^verbatim>\<open>status: "fallback"\<close>.
  When a health check finds no fresh entry and its call fails by timeout, network error
  or unparsable payload, the handler answers \<^verbatim>\<open>{status: 'error', error, fallback: true}\<close>.
  Only the answer of the health check carries a fallback flag.
\<close>

theorem failed_call_answered_with_fallback:
  "(action rq = ''SEARCH_CUAD''
      \<and> cached_fresh c (search_key (query rq) (nResults_or_3 (nResults rq))) (now e) = None
      \<and> (unreachable (signals e) \<or> bad_status (signals e) \<or> bad_payload (signals e))
    \<longrightarrow> reply (handler e c rq) =
          Some (JArr (map clause_json
                        (getFallbackClauses (query rq) (nResults_or_3 (nResults rq))))))
   \<and> (\<forall>cl \<in> set (getFallbackClauses q n). source cl = ''fallback'')
   \<and> (action rq = ''ANALYZE_WITH_CUAD''
      \<and> cached_fresh c (analyze_key (documentText rq) (question rq)) (now e) = None
      \<and> (unreachable (signals e) \<or> bad_status (signals e) \<or> bad_payload (signals e))
    \<longrightarrow> reply (handler e c rq) =
          Some (JObj [(''status'', JStr ''fallback''),
                      (''document_preview'', JStr (substring0 (documentText rq) 200)),
                      (''relevant_clauses_found'', JInt 0),
                      (''analysis_prompt'', JStr (analysis_prompt (question rq))),
                      (''analysis_ready'', JBool False)]))
   \<and> (action rq = ''CHECK_CUAD_HEALTH''
      \<and> cached_fresh c ''health_check'' (now e) = None
      \<and> (unreachable (signals e) \<or> bad_payload (signals e))
    \<longrightarrow> (\<exists>msg. reply (handler e c rq) =
          Some (JObj [(''status'', JStr ''error''), (''error'', JStr msg),
                      (''fallback'', JBool True)])))"
proof -
  have s: "action rq = ''SEARCH_CUAD''
      \<and> cached_fresh c (search_key (query rq) (nResults_or_3 (nResults rq))) (now e) = None
      \<and> (unreachable (signals e) \<or> bad_status (signals e) \<or> bad_payload (signals e))
    \<longrightarrow> reply (handler e c rq) =
          Some (JArr (map clause_json
                        (getFallbackClauses (query rq) (nResults_or_3 (nResults rq)))))"
    by (simp add: handler_search search_fallback_reply)
  have m: "\<forall>cl \<in> set (getFallbackClauses q n). source cl = ''fallback''"
    by (simp add: fallback_sources)
  have a: "action rq = ''ANALYZE_WITH_CUAD''
      \<and> cached_fresh c (analyze_key (documentText rq) (question rq)) (now e) = None
      \<and> (unreachable (signals e) \<or> bad_status (signals e) \<or> bad_payload (signals e))
    \<longrightarrow> reply (handler e c rq) =
          Some (JObj [(''status'', JStr ''fallback''),
                      (''document_preview'', JStr (substring0 (documentText rq) 200)),
                      (''relevant_clauses_found'', JInt 0),
                      (''analysis_prompt'', JStr (analysis_prompt (question rq))),
                      (''analysis_ready'', JBool False)])"
    by (simp add: handler_analyze analyze_fallback_reply)
  have h: "action rq = ''CHECK_CUAD_HEALTH''
      \<and> cached_fresh c ''health_check'' (now e) = None
      \<and> (unreachable (signals e) \<or> bad_payload (signals e))
    \<longrightarrow> (\<exists>msg. reply (handler e c rq) =
          Some (JObj [(''status'', JStr ''error''), (''error'', JStr msg),
                      (''fallback'', JBool True)]))"
    by (simp add: handler_health health_fallback_reply)
  show ?thesis by (intro conjI s m a h)
qed

text \<open>
  An analyze request answered with status 503 gets the fallback object; the clause found
  for \<^verbatim>\<open>confidential\<close> has the source \<^verbatim>\<open>fallback\<close>.
\<close>

theorem failed_call_answered_with_fallback_witness:
  "bad_status [FetchResolves \<lparr> status = 503, body = Stalled \<rparr>]
   \<and> cached_fresh Map.empty (analyze_key ''Lease'' None) 0 = None
   \<and> reply (handler \<lparr> now = 0, signals = [FetchResolves \<lparr> status = 503, body = Stalled \<rparr>],
                       later = 25, abortText = ''The user aborted a request.'',
                       nullReadText = ''Cannot read properties of null'',
                  toPrimitiveText = ''Cannot convert object to primitive value'' \<rparr>
               Map.empty
               \<lparr> action = ''ANALYZE_WITH_CUAD'', query = [], nResults = None,
                 documentText = ''Lease'', question = None \<rparr>)
       = Some (JObj [(''status'', JStr ''fallback''),
                     (''document_preview'', JStr ''Lease''),
                     (''relevant_clauses_found'', JInt 0),
                     (''analysis_prompt'', JStr ''Please analyze this legal document.''),
                     (''analysis_ready'', JBool False)])
   \<and> sampleClauses ! 0 \<in> set (getFallbackClauses ''confidential'' 3)
   \<and> source (sampleClauses ! 0) = ''fallback''"
proof -
  let ?e = "\<lparr> now = 0, signals = [FetchResolves \<lparr> status = 503, body = Stalled \<rparr>],
              later = 25, abortText = ''The user aborted a request.'',
              nullReadText = ''Cannot read properties of null'',
                  toPrimitiveText = ''Cannot convert object to primitive value'' \<rparr>"
  let ?rq = "\<lparr> action = ''ANALYZE_WITH_CUAD'', query = [], nResults = None,
               documentText = ''Lease'', question = None \<rparr>"
  note t = failed_call_answered_with_fallback [of ?rq Map.empty ?e "''confidential''" 3]
  have b: "bad_status [FetchResolves \<lparr> status = 503, body = Stalled \<rparr>]"
    by (simp add: ok_def)
  have miss: "cached_fresh Map.empty (analyze_key ''Lease'' None) 0 = None"
    by (rule empty_cache_miss)
  from t b miss have 1: "reply (handler ?e Map.empty ?rq)
       = Some (JObj [(''status'', JStr ''fallback''),
                     (''document_preview'', JStr ''Lease''),
                     (''relevant_clauses_found'', JInt 0),
                     (''analysis_prompt'', JStr ''Please analyze this legal document.''),
                     (''analysis_ready'', JBool False)])"
    by (simp add: substring0_def analysis_prompt_def)
  have 2: "sampleClauses ! 0 \<in> set (getFallbackClauses ''confidential'' 3)"
    by (simp add: fallback_confidential)
  from t 2 have 3: "source (sampleClauses ! 0) = ''fallback''"
    by blast
  show ?thesis using b miss 1 2 3 by blast
qed

text \<open>
  The claim as stated fails for the search: with the backend timing out, the answer to a
  search for \<^verbatim>\<open>confidential\<close> is the array of fallback clauses, which has no property
  \<^verbatim>\<open>fallback\<close> or \<^verbatim>\<open>isFallback\<close>.
\<close>

theorem search_fallback_has_no_flag_counterexample:
  "reply (handler \<lparr> now = 0, signals = [TimerFires], later = 10000,
                    abortText = ''The user aborted a request.'',
                    nullReadText = ''Cannot read properties of null'',
                  toPrimitiveText = ''Cannot convert object to primitive value'' \<rparr>
            Map.empty
            \<lparr> action = ''SEARCH_CUAD'', query = ''confidential'', nResults = Some 3,
              documentText = [], question = None \<rparr>)
     = Some (JArr [clause_json (sampleClauses ! 0)])
   \<and> \<not> carries_fallback_flag (JArr [clause_json (sampleClauses ! 0)])"
proof -
  let ?e = "\<lparr> now = 0, signals = [TimerFires], later = 10000,
              abortText = ''The user aborted a request.'',
              nullReadText = ''Cannot read properties of null'',
                  toPrimitiveText = ''Cannot convert object to primitive value'' \<rparr>"
  have "reply (searchCUADSimple ?e Map.empty ''confidential'' 3)
          = Some (JArr (map clause_json (getFallbackClauses ''confidential'' 3)))"
    by (rule search_fallback_reply) (simp_all add: empty_cache_miss)
  then have "reply (searchCUADSimple ?e Map.empty ''confidential'' 3)
          = Some (JArr [clause_json (sampleClauses ! 0)])"
    by (simp add: fallback_confidential)
  then show ?thesis
    by (simp add: handler_search nResults_or_3_def carries_fallback_flag_def)
qed

section \<open>The two scenarios with the backend down\<close>

text \<open>
  C8, as the script has it. While the backend has been unreachable since the script
  started, a search for \<^verbatim>\<open>confidential\<close> with \<open>n = 3\<close> is answered with exactly one clause,
  the catalog entry of category \<^verbatim>\<open>Confidentiality\<close> with its fixed score 0.85. Nothing is
  added to it: the first \<open>n\<close> clauses of the catalog are returned only when no clause
  matches.
\<close>

theorem confidential_search_when_unreachable:
  assumes "unreachable (signals e)"
    and "action rq = ''SEARCH_CUAD''" and "query rq = ''confidential''"
    and "nResults rq = Some 3"
  shows "(down_throughout history \<longrightarrow>
          reply (handler e (serve Map.empty history) rq) =
           Some (JArr [JObj [ (''text'', JStr ''Confidential Information means all information disclosed by one party to another that is marked confidential or should reasonably be considered confidential.''),
                              (''clause_type'', JStr ''Confidentiality''),
                              (''similarity_score'', JDec ''0.85''),
                              (''metadata'', JObj [ (''source'', JStr ''fallback''),
                                                   (''document_title'', JStr ''Sample NDA'') ]) ]]))
       \<and> (cached_fresh c (search_key ''confidential'' 3) (now e) = None \<longrightarrow>
          reply (handler e c rq) =
           Some (JArr [JObj [ (''text'', JStr ''Confidential Information means all information disclosed by one party to another that is marked confidential or should reasonably be considered confidential.''),
                              (''clause_type'', JStr ''Confidentiality''),
                              (''similarity_score'', JDec ''0.85''),
                              (''metadata'', JObj [ (''source'', JStr ''fallback''),
                                                   (''document_title'', JStr ''Sample NDA'') ]) ]]))"
proof -
  have n: "nResults_or_3 (nResults rq) = 3"
    using assms(4) by (simp add: nResults_or_3_def)
  have miss: "reply (handler e c' rq) = Some (JArr [clause_json (sampleClauses ! 0)])"
    if "cached_fresh c' (search_key ''confidential'' 3) (now e) = None" for c'
  proof -
    have "reply (searchCUADSimple e c' ''confidential'' 3)
            = Some (JArr (map clause_json (getFallbackClauses ''confidential'' 3)))"
      using that assms(1) by (intro search_fallback_reply) simp_all
    then show ?thesis
      using assms(2,3) by (simp add: handler_search n fallback_confidential)
  qed
  have hist: "reply (handler e (serve Map.empty history) rq)
                = Some (JArr [clause_json (sampleClauses ! 0)])"
    if "down_throughout history"
  proof -
    have "serve Map.empty history = Map.empty" using that by (rule serve_down)
    then show ?thesis using miss [of Map.empty] by (simp add: empty_cache_miss)
  qed
  show ?thesis using miss [of c] hist by (simp add: confidentiality_clause_json)
qed

text \<open>After a health check that timed out, the search fails to reach the backend.\<close>

theorem confidential_search_when_unreachable_witness:
  "down_throughout
     [(\<lparr> now = 0, signals = [TimerFires], later = 10000,
         abortText = ''The user aborted a request.'',
         nullReadText = ''Cannot read properties of null'',
                  toPrimitiveText = ''Cannot convert object to primitive value'' \<rparr>,
       \<lparr> action = ''CHECK_CUAD_HEALTH'', query = [], nResults = None, documentText = [],
         question = None \<rparr>)]
   \<and> unreachable [FetchRejects ''Failed to fetch'']
   \<and> reply (handler
       \<lparr> now = 20000, signals = [FetchRejects ''Failed to fetch''], later = 20004,
         abortText = ''The user aborted a request.'',
         nullReadText = ''Cannot read properties of null'',
                  toPrimitiveText = ''Cannot convert object to primitive value'' \<rparr>
       (serve Map.empty
         [(\<lparr> now = 0, signals = [TimerFires], later = 10000,
             abortText = ''The user aborted a request.'',
             nullReadText = ''Cannot read properties of null'',
                  toPrimitiveText = ''Cannot convert object to primitive value'' \<rparr>,
           \<lparr> action = ''CHECK_CUAD_HEALTH'', query = [], nResults = None, documentText = [],
             question = None \<rparr>)])
       \<lparr> action = ''SEARCH_CUAD'', query = ''confidential'', nResults = Some 3,
         documentText = [], question = None \<rparr>)
     = Some (JArr [JObj [ (''text'', JStr ''Confidential Information means all information disclosed by one party to another that is marked confidential or should reasonably be considered confidential.''),
                          (''clause_type'', JStr ''Confidentiality''),
                          (''similarity_score'', JDec ''0.85''),
                          (''metadata'', JObj [ (''source'', JStr ''fallback''),
                                               (''document_title'', JStr ''Sample NDA'') ]) ]])"
proof -
  let ?h = "[(\<lparr> now = 0, signals = [TimerFires], later = 10000,
         abortText = ''The user aborted a request.'',
         nullReadText = ''Cannot read properties of null'',
                  toPrimitiveText = ''Cannot convert object to primitive value'' \<rparr>,
       \<lparr> action = ''CHECK_CUAD_HEALTH'', query = [], nResults = None, documentText = [],
         question = None \<rparr>)]"
  let ?e = "\<lparr> now = 20000, signals = [FetchRejects ''Failed to fetch''],
         later = 20004, abortText = ''The user aborted a request.'',
         nullReadText = ''Cannot read properties of null'',
                  toPrimitiveText = ''Cannot convert object to primitive value'' \<rparr>"
  let ?rq = "\<lparr> action = ''SEARCH_CUAD'', query = ''confidential'', nResults = Some 3,
         documentText = [], question = None \<rparr>"
  have d: "down_throughout ?h" by simp
  have u: "unreachable [FetchRejects ''Failed to fetch'']" by simp
  have u': "unreachable (signals ?e)" by simp
  have a: "action ?rq = ''SEARCH_CUAD''" by simp
  have q: "query ?rq = ''confidential''" by simp
  have n: "nResults ?rq = Some 3" by simp
  from confidential_search_when_unreachable [OF u' a q n, of ?h] d
  have "reply (handler ?e (serve Map.empty ?h) ?rq)
     = Some (JArr [JObj [ (''text'', JStr ''Confidential Information means all information disclosed by one party to another that is marked confidential or should reasonably be considered confidential.''),
                          (''clause_type'', JStr ''Confidentiality''),
                          (''similarity_score'', JDec ''0.85''),
                          (''metadata'', JObj [ (''source'', JStr ''fallback''),
                                               (''document_title'', JStr ''Sample NDA'') ]) ]])"
    by blast
  with d u show ?thesis by blast
qed

text \<open>
  The claim as stated fails: the answer has one clause, not three, although the catalog
  has three clauses to pad with.
\<close>

theorem confidential_search_not_padded_counterexample:
  "reply (handler \<lparr> now = 0, signals = [FetchRejects ''Failed to fetch''], later = 3,
                    abortText = ''The user aborted a request.'',
                    nullReadText = ''Cannot read properties of null'',
                  toPrimitiveText = ''Cannot convert object to primitive value'' \<rparr>
            Map.empty
            \<lparr> action = ''SEARCH_CUAD'', query = ''confidential'', nResults = Some 3,
              documentText = [], question = None \<rparr>)
     = Some (JArr (map clause_json (getFallbackClauses ''confidential'' 3)))
   \<and> length (getFallbackClauses ''confidential'' 3) = 1
   \<and> length sampleClauses = 3"
proof -
  let ?e = "\<lparr> now = 0, signals = [FetchRejects ''Failed to fetch''], later = 3,
              abortText = ''The user aborted a request.'',
              nullReadText = ''Cannot read properties of null'',
                  toPrimitiveText = ''Cannot convert object to primitive value'' \<rparr>"
  have "reply (searchCUADSimple ?e Map.empty ''confidential'' 3)
          = Some (JArr (map clause_json (getFallbackClauses ''confidential'' 3)))"
    by (rule search_fallback_reply) (simp_all add: empty_cache_miss)
  then show ?thesis
    by (simp add: handler_search nResults_or_3_def fallback_confidential sampleClauses_length)
qed

text \<open>
  C9. While the backend has been unreachable since the script started, and more generally
  whenever an analyze request finds no fresh entry and the backend is unreachable, an
  analyze request without a question is answered with status \<^verbatim>\<open>"fallback"\<close>, 0 relevant
  clauses found, \<^verbatim>\<open>analysis_ready: false\<close>, the default prompt, and the first 200
  characters of the document as preview.
\<close>

theorem analyze_fallback_when_backend_down:
  assumes "unreachable (signals e)" and "action rq = ''ANALYZE_WITH_CUAD''"
    and "question rq = None"
  shows "(down_throughout history \<longrightarrow>
          reply (handler e (serve Map.empty history) rq) =
           Some (JObj [(''status'', JStr ''fallback''),
                       (''document_preview'', JStr (take 200 (documentText rq))),
                       (''relevant_clauses_found'', JInt 0),
                       (''analysis_prompt'', JStr ''Please analyze this legal document.''),
                       (''analysis_ready'', JBool False)]))
       \<and> (cached_fresh c (analyze_key (documentText rq) None) (now e) = None \<longrightarrow>
          reply (handler e c rq) =
           Some (JObj [(''status'', JStr ''fallback''),
                       (''document_preview'', JStr (take 200 (documentText rq))),
                       (''relevant_clauses_found'', JInt 0),
                       (''analysis_prompt'', JStr ''Please analyze this legal document.''),
                       (''analysis_ready'', JBool False)]))
       \<and> length (take 200 (documentText rq)) \<le> 200"
proof -
  have miss: "reply (handler e c' rq) =
           Some (JObj [(''status'', JStr ''fallback''),
                       (''document_preview'', JStr (take 200 (documentText rq))),
                       (''relevant_clauses_found'', JInt 0),
                       (''analysis_prompt'', JStr ''Please analyze this legal document.''),
                       (''analysis_ready'', JBool False)])"
    if "cached_fresh c' (analyze_key (documentText rq) None) (now e) = None" for c'
  proof -
    have "reply (analyzeSimple e c' (documentText rq) None) =
           Some (JObj [(''status'', JStr ''fallback''),
                       (''document_preview'', JStr (substring0 (documentText rq) 200)),
                       (''relevant_clauses_found'', JInt 0),
                       (''analysis_prompt'', JStr (analysis_prompt None)),
                       (''analysis_ready'', JBool False)])"
      using that assms(1) by (intro analyze_fallback_reply) simp_all
    then show ?thesis
      using assms(2,3) by (simp add: handler_analyze substring0_def analysis_prompt_def)
  qed
  have hist: "reply (handler e (serve Map.empty history) rq) =
           Some (JObj [(''status'', JStr ''fallback''),
                       (''document_preview'', JStr (take 200 (documentText rq))),
                       (''relevant_clauses_found'', JInt 0),
                       (''analysis_prompt'', JStr ''Please analyze this legal document.''),
                       (''analysis_ready'', JBool False)])"
    if "down_throughout history"
  proof -
    have "serve Map.empty history = Map.empty" using that by (rule serve_down)
    then show ?thesis using miss [of Map.empty] by (simp add: empty_cache_miss)
  qed
  show ?thesis using miss [of c] hist by simp
qed

text \<open>The same document analysed twice while the backend is unreachable.\<close>

theorem analyze_fallback_when_backend_down_witness:
  "unreachable [TimerFires]
   \<and> down_throughout
       [(\<lparr> now = 0, signals = [FetchRejects ''Failed to fetch''], later = 2,
           abortText = ''The user aborted a request.'',
           nullReadText = ''Cannot read properties of null'',
                  toPrimitiveText = ''Cannot convert object to primitive value'' \<rparr>,
         \<lparr> action = ''ANALYZE_WITH_CUAD'', query = [], nResults = None,
           documentText = ''This Lease is made between the parties.'',
           question = None \<rparr>)]
   \<and> reply (handler \<lparr> now = 5000, signals = [TimerFires], later = 15000,
                       abortText = ''The user aborted a request.'',
                       nullReadText = ''Cannot read properties of null'',
                  toPrimitiveText = ''Cannot convert object to primitive value'' \<rparr>
               (serve Map.empty
                  [(\<lparr> now = 0, signals = [FetchRejects ''Failed to fetch''], later = 2,
                      abortText = ''The user aborted a request.'',
                      nullReadText = ''Cannot read properties of null'',
                  toPrimitiveText = ''Cannot convert object to primitive value'' \<rparr>,
                    \<lparr> action = ''ANALYZE_WITH_CUAD'', query = [], nResults = None,
                      documentText = ''This Lease is made between the parties.'',
                      question = None \<rparr>)])
               \<lparr> action = ''ANALYZE_WITH_CUAD'', query = [], nResults = None,
                 documentText = ''This Lease is made between the parties.'',
                 question = None \<rparr>)
       = Some (JObj [(''status'', JStr ''fallback''),
                     (''document_preview'', JStr ''This Lease is made between the parties.''),
                     (''relevant_clauses_found'', JInt 0),
                     (''analysis_prompt'', JStr ''Please analyze this legal document.''),
                     (''analysis_ready'', JBool False)])"
proof -
  let ?e = "\<lparr> now = 5000, signals = [TimerFires], later = 15000,
              abortText = ''The user aborted a request.'',
              nullReadText = ''Cannot read properties of null'',
                  toPrimitiveText = ''Cannot convert object to primitive value'' \<rparr>"
  let ?rq = "\<lparr> action = ''ANALYZE_WITH_CUAD'', query = [], nResults = None,
                 documentText = ''This Lease is made between the parties.'',
                 question = None \<rparr>"
  let ?h = "[(\<lparr> now = 0, signals = [FetchRejects ''Failed to fetch''], later = 2,
                abortText = ''The user aborted a request.'',
                nullReadText = ''Cannot read properties of null'',
                  toPrimitiveText = ''Cannot convert object to primitive value'' \<rparr>, ?rq)]"
  have u: "unreachable (signals ?e)" by simp
  have u0: "unreachable [TimerFires]" by simp
  have a: "action ?rq = ''ANALYZE_WITH_CUAD''" by simp
  have q: "question ?rq = None" by simp
  have d: "down_throughout ?h" by simp
  from analyze_fallback_when_backend_down [OF u a q, of ?h] d
  have "reply (handler ?e (serve Map.empty ?h) ?rq)
       = Some (JObj [(''status'', JStr ''fallback''),
                     (''document_preview'', JStr (take 200 (documentText ?rq))),
                     (''relevant_clauses_found'', JInt 0),
                     (''analysis_prompt'', JStr ''Please analyze this legal document.''),
                     (''analysis_ready'', JBool False)])"
    by blast
  then have "reply (handler ?e (serve Map.empty ?h) ?rq)
       = Some (JObj [(''status'', JStr ''fallback''),
                     (''document_preview'', JStr ''This Lease is made between the parties.''),
                     (''relevant_clauses_found'', JInt 0),
                     (''analysis_prompt'', JStr ''Please analyze this legal document.''),
                     (''analysis_ready'', JBool False)])"
    by simp
  with u0 d show ?thesis by blast
qed

section \<open>Unknown actions\<close>








section \<open>Repeated requests\<close>

lemma cached_fresh_entry:
  assumes "c k = Some \<lparr> data = d, timestamp = t1 \<rparr>"
  shows "cached_fresh c k t = (if t - t1 < 60000 then Some d else None)"
  using assms by (simp add: cached_fresh_def CACHE_TTL_def)

lemma health_calls_on_miss:
  assumes "cached_fresh c ''health_check'' (now e) = None"
  shows "net_calls (trace (checkCUADHealth e c)) \<noteq> []"
  using assms by (simp add: checkCUADHealth_def Let_def split: option.splits sum.splits)

lemma search_calls_on_miss:
  assumes "cached_fresh c (search_key q n) (now e) = None"
  shows "net_calls (trace (searchCUADSimple e c q n)) \<noteq> []"
  using assms by (simp add: searchCUADSimple_def Let_def split: option.splits sum.splits)

lemma analyze_calls_on_miss:
  assumes "cached_fresh c (analyze_key doc qu) (now e) = None"
  shows "net_calls (trace (analyzeSimple e c doc qu)) \<noteq> []"
  using assms by (simp add: analyzeSimple_def Let_def split: option.splits sum.splits)

text \<open>The second request of a pair, when the cache holds an entry under its key.\<close>

lemma health_again:
  assumes "c ''health_check'' = Some \<lparr> data = d, timestamp = t1 \<rparr>"
  shows "(now e - t1 < 60000 \<longrightarrow>
            checkCUADHealth e c =
              \<lparr> reply = Some d, cache_after = c, trace = [CacheGet ''health_check''] \<rparr>)
       \<and> (\<not> now e - t1 < 60000 \<longrightarrow> net_calls (trace (checkCUADHealth e c)) \<noteq> [])"
  using assms cached_fresh_entry [of c "''health_check''" d t1 "now e"]
  by (simp add: health_hit health_calls_on_miss)

lemma search_again:
  assumes "c (search_key q n) = Some \<lparr> data = d, timestamp = t1 \<rparr>"
  shows "(now e - t1 < 60000 \<longrightarrow>
            searchCUADSimple e c q n =
              \<lparr> reply = Some d, cache_after = c, trace = [CacheGet (search_key q n)] \<rparr>)
       \<and> (\<not> now e - t1 < 60000 \<longrightarrow> net_calls (trace (searchCUADSimple e c q n)) \<noteq> [])"
  using assms cached_fresh_entry [of c "search_key q n" d t1 "now e"]
  by (simp add: search_hit search_calls_on_miss)

lemma analyze_again:
  assumes "c (analyze_key doc qu) = Some \<lparr> data = d, timestamp = t1 \<rparr>"
  shows "(now e - t1 < 60000 \<longrightarrow>
            analyzeSimple e c doc qu =
              \<lparr> reply = Some d, cache_after = c, trace = [CacheGet (analyze_key doc qu)] \<rparr>)
       \<and> (\<not> now e - t1 < 60000 \<longrightarrow> net_calls (trace (analyzeSimple e c doc qu)) \<noteq> [])"
  using assms cached_fresh_entry [of c "analyze_key doc qu" d t1 "now e"]
  by (simp add: analyze_hit analyze_calls_on_miss)

text \<open>The first request of a pair: no fresh entry, and the backend answers.\<close>

lemma health_first:
  assumes "cached_fresh c ''health_check'' (now e) = None" and "fetched (signals e) d"
  shows "reply (checkCUADHealth e c) = Some (JObj [(''status'', JStr ''healthy''), (''data'', d)])
       \<and> cache_after (checkCUADHealth e c) ''health_check'' =
           Some \<lparr> data = JObj [(''status'', JStr ''healthy''), (''data'', d)],
                  timestamp = later e \<rparr>
       \<and> net_calls (trace (checkCUADHealth e c)) \<noteq> []"
proof -
  have "health_attempt (signals e) = Some (Inr d)"
    using assms(2) by (rule fetched_health)
  then show ?thesis by (simp add: health_fetches [OF assms(1)] cache_set_def)
qed

lemma search_first:
  assumes "cached_fresh c (search_key q n) (now e) = None" and "fetched (signals e) d"
  shows "reply (searchCUADSimple e c q n) = Some d
       \<and> cache_after (searchCUADSimple e c q n) (search_key q n) =
           Some \<lparr> data = d, timestamp = later e \<rparr>
       \<and> net_calls (trace (searchCUADSimple e c q n)) \<noteq> []"
proof -
  have "checked_attempt (signals e) = Some (Inr d)"
    using assms(2) by (rule fetched_checked)
  then show ?thesis by (simp add: search_fetches [OF assms(1)] cache_set_def)
qed

lemma analyze_first:
  assumes "cached_fresh c (analyze_key doc qu) (now e) = None" and "fetched (signals e) d"
  shows "reply (analyzeSimple e c doc qu) = Some d
       \<and> cache_after (analyzeSimple e c doc qu) (analyze_key doc qu) =
           Some \<lparr> data = d, timestamp = later e \<rparr>
       \<and> net_calls (trace (analyzeSimple e c doc qu)) \<noteq> []"
proof -
  have "checked_attempt (signals e) = Some (Inr d)"
    using assms(2) by (rule fetched_checked)
  then show ?thesis by (simp add: analyze_fetches [OF assms(1)] cache_set_def)
qed

text \<open>
  C2, as the script has it. Take a health-check, search or analyze request that finds no
  fresh entry and whose backend call succeeds, and a second request with the same action
  and the same cache key, handled while the entry of the first is still in the cache. The
  first request has called the backend. If the second is handled less than 60000 ms after
  the first stored its answer, it is answered with the answer of the first, reads the
  cache once and sends nothing to the backend; otherwise it calls the backend again. An
  enhanced-analysis request is served from the same entry without a backend call, but
  the handler builds its answer anew around the cached analysis, with the time of the
  answer in it.
\<close>

theorem repeated_request_served_from_cache:
  assumes act: "action rq = ''CHECK_CUAD_HEALTH'' \<or> action rq = ''SEARCH_CUAD''
                \<or> action rq = ''ANALYZE_WITH_CUAD'' \<or> action rq = ''GET_ENHANCED_RESPONSE''"
    and same_action: "action rq' = action rq"
    and same_key: "cache_key rq' = cache_key rq"
    and miss: "cached_fresh c1 (cache_key rq) (now e1) = None"
    and success: "fetched (signals e1) d"
    and kept: "c2 (cache_key rq) = cache_after (handler e1 c1 rq) (cache_key rq)"
  shows "net_calls (trace (handler e1 c1 rq)) \<noteq> []
       \<and> (now e2 - later e1 < 60000 \<longrightarrow>
            trace (handler e2 c2 rq') = [CacheGet (cache_key rq)]
          \<and> net_calls (trace (handler e2 c2 rq')) = []
          \<and> cache_after (handler e2 c2 rq') = c2
          \<and> (action rq \<noteq> ''GET_ENHANCED_RESPONSE'' \<longrightarrow>
                reply (handler e2 c2 rq') = reply (handler e1 c1 rq)
              \<and> reply (handler e1 c1 rq) \<noteq> None)
          \<and> (action rq = ''GET_ENHANCED_RESPONSE'' \<longrightarrow>
                reply (handler e1 c1 rq) = Some (enhanced_response e1 d)
              \<and> reply (handler e2 c2 rq') = Some (enhanced_response e2 d)))
       \<and> (\<not> now e2 - later e1 < 60000 \<longrightarrow> net_calls (trace (handler e2 c2 rq')) \<noteq> [])"
proof -
  consider (h) "action rq = ''CHECK_CUAD_HEALTH''" | (s) "action rq = ''SEARCH_CUAD''"
    | (a) "action rq = ''ANALYZE_WITH_CUAD''" | (x) "action rq = ''GET_ENHANCED_RESPONSE''"
    using act by blast
  then show ?thesis
  proof cases
    case h
    have k: "cache_key rq = ''health_check''" using h by (simp add: cache_key_def)
    have r1: "handler e1 c1 rq = checkCUADHealth e1 c1" using h by (simp add: handler_health)
    have r2: "handler e2 c2 rq' = checkCUADHealth e2 c2"
      using h same_action by (simp add: handler_health)
    have m: "cached_fresh c1 ''health_check'' (now e1) = None" using miss k by simp
    note f = health_first [OF m success]
    have "c2 ''health_check'' =
            Some \<lparr> data = JObj [(''status'', JStr ''healthy''), (''data'', d)],
                   timestamp = later e1 \<rparr>"
      using kept k r1 f by simp
    with health_again [of c2 "JObj [(''status'', JStr ''healthy''), (''data'', d)]"
                          "later e1" e2] f h
    show ?thesis
      by (simp add: r1 r2 k)
  next
    case s
    have k: "cache_key rq = search_key (query rq) (nResults_or_3 (nResults rq))"
      using s by (simp add: cache_key_def)
    have k': "search_key (query rq') (nResults_or_3 (nResults rq')) = cache_key rq"
      using s same_action same_key by (simp add: cache_key_def)
    have r1: "handler e1 c1 rq = searchCUADSimple e1 c1 (query rq) (nResults_or_3 (nResults rq))"
      using s by (simp add: handler_search)
    have r2: "handler e2 c2 rq' =
                searchCUADSimple e2 c2 (query rq') (nResults_or_3 (nResults rq'))"
      using s same_action by (simp add: handler_search)
    have m: "cached_fresh c1 (search_key (query rq) (nResults_or_3 (nResults rq))) (now e1) = None"
      using miss k by simp
    note f = search_first [OF m success]
    have "c2 (search_key (query rq') (nResults_or_3 (nResults rq'))) =
            Some \<lparr> data = d, timestamp = later e1 \<rparr>"
      using kept k k' r1 f by simp
    with search_again [of c2 "query rq'" "nResults_or_3 (nResults rq')" d "later e1" e2] f s
    show ?thesis
      by (simp add: r1 r2 k' k)
  next
    case a
    have k: "cache_key rq = analyze_key (documentText rq) (question rq)"
      using a by (simp add: cache_key_def)
    have k': "analyze_key (documentText rq') (question rq') = cache_key rq"
      using a same_action same_key by (simp add: cache_key_def)
    have r1: "handler e1 c1 rq = analyzeSimple e1 c1 (documentText rq) (question rq)"
      using a by (simp add: handler_analyze)
    have r2: "handler e2 c2 rq' = analyzeSimple e2 c2 (documentText rq') (question rq')"
      using a same_action by (simp add: handler_analyze)
    have m: "cached_fresh c1 (analyze_key (documentText rq) (question rq)) (now e1) = None"
      using miss k by simp
    note f = analyze_first [OF m success]
    have "c2 (analyze_key (documentText rq') (question rq')) =
            Some \<lparr> data = d, timestamp = later e1 \<rparr>"
      using kept k k' r1 f by simp
    with analyze_again [of c2 "documentText rq'" "question rq'" d "later e1" e2] f a
    show ?thesis
      by (simp add: r1 r2 k' k)
  next
    case x
    have k: "cache_key rq = analyze_key (documentText rq) (question rq)"
      using x by (simp add: cache_key_def)
    have k': "analyze_key (documentText rq') (question rq') = cache_key rq"
      using x same_action same_key by (simp add: cache_key_def)
    have r1: "handler e1 c1 rq =
                (analyzeSimple e1 c1 (documentText rq) (question rq))
                  \<lparr> reply := map_option (enhanced_response e1)
                       (reply (analyzeSimple e1 c1 (documentText rq) (question rq))) \<rparr>"
      using x by (simp add: handler_enhanced)
    have r2: "handler e2 c2 rq' =
                (analyzeSimple e2 c2 (documentText rq') (question rq'))
                  \<lparr> reply := map_option (enhanced_response e2)
                       (reply (analyzeSimple e2 c2 (documentText rq') (question rq'))) \<rparr>"
      using x same_action by (simp add: handler_enhanced)
    have m: "cached_fresh c1 (analyze_key (documentText rq) (question rq)) (now e1) = None"
      using miss k by simp
    note f = analyze_first [OF m success]
    have "c2 (analyze_key (documentText rq') (question rq')) =
            Some \<lparr> data = d, timestamp = later e1 \<rparr>"
      using kept k k' r1 f by simp
    with analyze_again [of c2 "documentText rq'" "question rq'" d "later e1" e2] f x
    show ?thesis
      by (simp add: r1 r2 k' k)
  qed
qed

text \<open>
  A search stored at 1040 ms; the same search, with \<open>nResults\<close> given as 3 instead of left
  out, is served from the cache at 61039 ms and calls the backend at 61040 ms.
\<close>

theorem repeated_request_served_from_cache_witness:
  "fetched [FetchResolves \<lparr> status = 200, body = Parsed (JArr []) \<rparr>] (JArr [])
   \<and> (61039::int) - 1040 < 60000
   \<and> reply (handler
         \<lparr> now = 61039, signals = [], later = 61039,
           abortText = ''The user aborted a request.'',
           nullReadText = ''Cannot read properties of null'',
                  toPrimitiveText = ''Cannot convert object to primitive value'' \<rparr>
         (cache_after (handler
            \<lparr> now = 1000, signals = [FetchResolves \<lparr> status = 200, body = Parsed (JArr []) \<rparr>],
              later = 1040, abortText = ''The user aborted a request.'',
              nullReadText = ''Cannot read properties of null'',
                  toPrimitiveText = ''Cannot convert object to primitive value'' \<rparr>
            Map.empty
            \<lparr> action = ''SEARCH_CUAD'', query = ''rent'', nResults = None, documentText = [],
              question = None \<rparr>))
         \<lparr> action = ''SEARCH_CUAD'', query = ''rent'', nResults = Some 3, documentText = [],
           question = None \<rparr>)
     = Some (JArr [])
   \<and> \<not> (61040::int) - 1040 < 60000
   \<and> net_calls (trace (handler
         \<lparr> now = 61040, signals = [], later = 61040,
           abortText = ''The user aborted a request.'',
           nullReadText = ''Cannot read properties of null'',
                  toPrimitiveText = ''Cannot convert object to primitive value'' \<rparr>
         (cache_after (handler
            \<lparr> now = 1000, signals = [FetchResolves \<lparr> status = 200, body = Parsed (JArr []) \<rparr>],
              later = 1040, abortText = ''The user aborted a request.'',
              nullReadText = ''Cannot read properties of null'',
                  toPrimitiveText = ''Cannot convert object to primitive value'' \<rparr>
            Map.empty
            \<lparr> action = ''SEARCH_CUAD'', query = ''rent'', nResults = None, documentText = [],
              question = None \<rparr>))
         \<lparr> action = ''SEARCH_CUAD'', query = ''rent'', nResults = Some 3, documentText = [],
           question = None \<rparr>)) \<noteq> []"
proof -
  let ?e1 = "\<lparr> now = 1000, signals = [FetchResolves \<lparr> status = 200, body = Parsed (JArr []) \<rparr>],
              later = 1040, abortText = ''The user aborted a request.'',
              nullReadText = ''Cannot read properties of null'',
                  toPrimitiveText = ''Cannot convert object to primitive value'' \<rparr>"
  let ?e2 = "\<lparr> now = 61039, signals = [], later = 61039,
           abortText = ''The user aborted a request.'',
           nullReadText = ''Cannot read properties of null'',
                  toPrimitiveText = ''Cannot convert object to primitive value'' \<rparr>"
  let ?e3 = "\<lparr> now = 61040, signals = [], later = 61040,
           abortText = ''The user aborted a request.'',
           nullReadText = ''Cannot read properties of null'',
                  toPrimitiveText = ''Cannot convert object to primitive value'' \<rparr>"
  let ?rq = "\<lparr> action = ''SEARCH_CUAD'', query = ''rent'', nResults = None, documentText = [],
              question = None \<rparr>"
  let ?rq' = "\<lparr> action = ''SEARCH_CUAD'', query = ''rent'', nResults = Some 3, documentText = [],
           question = None \<rparr>"
  let ?c2 = "cache_after (handler ?e1 Map.empty ?rq)"
  have act: "action ?rq = ''CHECK_CUAD_HEALTH'' \<or> action ?rq = ''SEARCH_CUAD''
                \<or> action ?rq = ''ANALYZE_WITH_CUAD'' \<or> action ?rq = ''GET_ENHANCED_RESPONSE''"
    by simp
  have sa: "action ?rq' = action ?rq" by simp
  have sk: "cache_key ?rq' = cache_key ?rq" by (simp add: cache_key_def nResults_or_3_def)
  have miss: "cached_fresh Map.empty (cache_key ?rq) (now ?e1) = None" by (rule empty_cache_miss)
  have f0: "fetched [FetchResolves \<lparr> status = 200, body = Parsed (JArr []) \<rparr>] (JArr [])"
    by (simp add: ok_def)
  then have succ: "fetched (signals ?e1) (JArr [])" by simp
  have kept: "?c2 (cache_key ?rq) = cache_after (handler ?e1 Map.empty ?rq) (cache_key ?rq)" ..
  have first: "reply (handler ?e1 Map.empty ?rq) = Some (JArr [])"
    using search_first [of Map.empty "''rent''" 3 ?e1 "JArr []"] succ
    by (simp add: handler_search nResults_or_3_def empty_cache_miss)
  note t2 = repeated_request_served_from_cache
    [of ?rq ?rq' Map.empty ?e1 "JArr []" ?c2 ?e2, OF act sa sk miss succ kept]
  note t3 = repeated_request_served_from_cache
    [of ?rq ?rq' Map.empty ?e1 "JArr []" ?c2 ?e3, OF act sa sk miss succ kept]
  have w: "(61039::int) - 1040 < 60000" by simp
  have n: "\<not> (61040::int) - 1040 < 60000" by simp
  from t2 have "reply (handler ?e2 ?c2 ?rq') = reply (handler ?e1 Map.empty ?rq)"
    by simp
  with first have 1: "reply (handler ?e2 ?c2 ?rq') = Some (JArr [])"
    by simp
  from t3 have 2: "net_calls (trace (handler ?e3 ?c2 ?rq')) \<noteq> []"
    by simp
  show ?thesis using f0 w 1 n 2 by blast
qed

text \<open>
  The claim as stated fails for the enhanced analysis: the first request triggers a
  successful backend call, the second comes 29960 ms after the store and is served from the
  cache, and yet the two answers differ, in their \<^verbatim>\<open>timestamp\<close>.
\<close>

lemma enhanced_twice:
  assumes "action rq = ''GET_ENHANCED_RESPONSE''"
    and "cached_fresh c1 (analyze_key (documentText rq) (question rq)) (now e1) = None"
    and "fetched (signals e1) d"
    and "now e2 - later e1 < 60000"
  shows "reply (handler e1 c1 rq) = Some (enhanced_response e1 d)
       \<and> reply (handler e2 (cache_after (handler e1 c1 rq)) rq) = Some (enhanced_response e2 d)
       \<and> net_calls (trace (handler e1 c1 rq)) \<noteq> []
       \<and> net_calls (trace (handler e2 (cache_after (handler e1 c1 rq)) rq)) = []"
proof -
  let ?k = "analyze_key (documentText rq) (question rq)"
  let ?c2 = "cache_after (analyzeSimple e1 c1 (documentText rq) (question rq))"
  note f = analyze_first [OF assms(2,3)]
  then have "?c2 ?k = Some \<lparr> data = d, timestamp = later e1 \<rparr>" by simp
  with analyze_again [of ?c2 "documentText rq" "question rq" d "later e1" e2] assms(4)
  have "analyzeSimple e2 ?c2 (documentText rq) (question rq) =
          \<lparr> reply = Some d, cache_after = ?c2, trace = [CacheGet ?k] \<rparr>"
    by simp
  with f assms(1) show ?thesis by (simp add: handler_enhanced)
qed

lemma iso_first: "toISOString 1700000000040 = ''2023-11-14T22:13:20.040Z''"
  by code_simp

lemma iso_second: "toISOString 1700000030000 = ''2023-11-14T22:13:50.000Z''"
  by code_simp

theorem enhanced_answers_differ_counterexample:
  "fetched [FetchResolves \<lparr> status = 200, body = Parsed (JObj []) \<rparr>] (JObj [])
   \<and> (1700000030000::int) - 1700000000040 < 60000
   \<and> net_calls (trace (handler
         \<lparr> now = 1700000000000,
           signals = [FetchResolves \<lparr> status = 200, body = Parsed (JObj []) \<rparr>],
           later = 1700000000040, abortText = ''The user aborted a request.'',
           nullReadText = ''Cannot read properties of null'',
                  toPrimitiveText = ''Cannot convert object to primitive value'' \<rparr>
         Map.empty
         \<lparr> action = ''GET_ENHANCED_RESPONSE'', query = [], nResults = None,
           documentText = ''Lease'', question = None \<rparr>)) \<noteq> []
   \<and> reply (handler
         \<lparr> now = 1700000030000, signals = [], later = 1700000030000,
           abortText = ''The user aborted a request.'',
           nullReadText = ''Cannot read properties of null'',
                  toPrimitiveText = ''Cannot convert object to primitive value'' \<rparr>
         (cache_after (handler
            \<lparr> now = 1700000000000,
              signals = [FetchResolves \<lparr> status = 200, body = Parsed (JObj []) \<rparr>],
              later = 1700000000040, abortText = ''The user aborted a request.'',
              nullReadText = ''Cannot read properties of null'',
                  toPrimitiveText = ''Cannot convert object to primitive value'' \<rparr>
            Map.empty
            \<lparr> action = ''GET_ENHANCED_RESPONSE'', query = [], nResults = None,
              documentText = ''Lease'', question = None \<rparr>))
         \<lparr> action = ''GET_ENHANCED_RESPONSE'', query = [], nResults = None,
           documentText = ''Lease'', question = None \<rparr>)
     \<noteq> reply (handler
         \<lparr> now = 1700000000000,
           signals = [FetchResolves \<lparr> status = 200, body = Parsed (JObj []) \<rparr>],
           later = 1700000000040, abortText = ''The user aborted a request.'',
           nullReadText = ''Cannot read properties of null'',
                  toPrimitiveText = ''Cannot convert object to primitive value'' \<rparr>
         Map.empty
         \<lparr> action = ''GET_ENHANCED_RESPONSE'', query = [], nResults = None,
           documentText = ''Lease'', question = None \<rparr>)"
proof -
  let ?e1 = "\<lparr> now = 1700000000000,
           signals = [FetchResolves \<lparr> status = 200, body = Parsed (JObj []) \<rparr>],
           later = 1700000000040, abortText = ''The user aborted a request.'',
           nullReadText = ''Cannot read properties of null'',
                  toPrimitiveText = ''Cannot convert object to primitive value'' \<rparr>"
  let ?e2 = "\<lparr> now = 1700000030000, signals = [], later = 1700000030000,
           abortText = ''The user aborted a request.'',
           nullReadText = ''Cannot read properties of null'',
                  toPrimitiveText = ''Cannot convert object to primitive value'' \<rparr>"
  let ?rq = "\<lparr> action = ''GET_ENHANCED_RESPONSE'', query = [], nResults = None,
           documentText = ''Lease'', question = None \<rparr>"
  have f0: "fetched [FetchResolves \<lparr> status = 200, body = Parsed (JObj []) \<rparr>] (JObj [])"
    by (simp add: ok_def)
  have w: "(1700000030000::int) - 1700000000040 < 60000" by simp
  have a: "action ?rq = ''GET_ENHANCED_RESPONSE''" by simp
  have m: "cached_fresh Map.empty (analyze_key (documentText ?rq) (question ?rq)) (now ?e1) = None"
    by (rule empty_cache_miss)
  have s: "fetched (signals ?e1) (JObj [])" using f0 by simp
  have w': "now ?e2 - later ?e1 < 60000" by simp
  note t = enhanced_twice [OF a m s w']
  have d: "enhanced_response ?e2 (JObj []) \<noteq> enhanced_response ?e1 (JObj [])"
    by (simp add: enhanced_response_def template_text_def iso_first iso_second)
  from t d have "reply (handler ?e2 (cache_after (handler ?e1 Map.empty ?rq)) ?rq)
                   \<noteq> reply (handler ?e1 Map.empty ?rq)"
    by simp
  with t f0 w show ?thesis by blast
qed

section \<open>The key of an analysis\<close>

text \<open>
  C10. Two analyze requests whose documents agree on their first 50 characters and whose
  questions are equal have the same cache key. So when the first finds no fresh entry and
  its backend call succeeds, and the second is handled less than 60000 ms after the first
  stored its answer, with that entry still in the cache, the second is answered with the
  answer computed for the document of the first, and nothing is sent to the backend.
\<close>

theorem analyze_key_from_document_prefix:
  assumes "action rq1 = ''ANALYZE_WITH_CUAD''" and "action rq2 = ''ANALYZE_WITH_CUAD''"
    and "take 50 (documentText rq2) = take 50 (documentText rq1)"
    and "question rq2 = question rq1"
  shows "analyze_key (documentText rq2) (question rq2) =
           analyze_key (documentText rq1) (question rq1)
       \<and> cache_key rq2 = cache_key rq1
       \<and> (cached_fresh c1 (cache_key rq1) (now e1) = None
          \<and> fetched (signals e1) d
          \<and> c2 (cache_key rq1) = cache_after (handler e1 c1 rq1) (cache_key rq1)
          \<and> now e2 - later e1 < 60000
        \<longrightarrow> reply (handler e1 c1 rq1) = Some d
          \<and> reply (handler e2 c2 rq2) = Some d
          \<and> net_calls (trace (handler e2 c2 rq2)) = [])"
proof -
  have key: "analyze_key (documentText rq2) (question rq2) =
               analyze_key (documentText rq1) (question rq1)"
    using assms(3,4) by (simp add: analyze_key_def substring0_def)
  have k1: "cache_key rq1 = analyze_key (documentText rq1) (question rq1)"
    using assms(1) by (simp add: cache_key_def)
  have k2: "cache_key rq2 = analyze_key (documentText rq2) (question rq2)"
    using assms(2) by (simp add: cache_key_def)
  have r1: "handler e1 c1 rq1 = analyzeSimple e1 c1 (documentText rq1) (question rq1)"
    using assms(1) by (simp add: handler_analyze)
  have r2: "handler e2 c2 rq2 = analyzeSimple e2 c2 (documentText rq2) (question rq2)"
    using assms(2) by (simp add: handler_analyze)
  have cons: "reply (handler e1 c1 rq1) = Some d
          \<and> reply (handler e2 c2 rq2) = Some d
          \<and> net_calls (trace (handler e2 c2 rq2)) = []"
    if h: "cached_fresh c1 (cache_key rq1) (now e1) = None
          \<and> fetched (signals e1) d
          \<and> c2 (cache_key rq1) = cache_after (handler e1 c1 rq1) (cache_key rq1)
          \<and> now e2 - later e1 < 60000"
  proof -
    have m: "cached_fresh c1 (analyze_key (documentText rq1) (question rq1)) (now e1) = None"
      using h k1 by simp
    have s: "fetched (signals e1) d" using h by simp
    note f = analyze_first [OF m s]
    have "c2 (analyze_key (documentText rq2) (question rq2)) =
            Some \<lparr> data = d, timestamp = later e1 \<rparr>"
      using h f k1 r1 key by simp
    with analyze_again [of c2 "documentText rq2" "question rq2" d "later e1" e2] h
    have "analyzeSimple e2 c2 (documentText rq2) (question rq2) =
            \<lparr> reply = Some d, cache_after = c2,
              trace = [CacheGet (analyze_key (documentText rq2) (question rq2))] \<rparr>"
      by simp
    with f show ?thesis by (simp add: r1 r2)
  qed
  show ?thesis using key k1 k2 cons by simp
qed

text \<open>
  Two different documents with the same first 50 characters: the second is answered with
  the analysis of the first.
\<close>

theorem analyze_key_from_document_prefix_witness:
  "take 50 ''This Agreement is made between Alpha Ltd and Beta Inc. Beta shall keep the records.''
     = take 50 ''This Agreement is made between Alpha Ltd and Beta Inc. Alpha shall pay the rent.''
   \<and> ''This Agreement is made between Alpha Ltd and Beta Inc. Beta shall keep the records.''
     \<noteq> ''This Agreement is made between Alpha Ltd and Beta Inc. Alpha shall pay the rent.''
   \<and> fetched [FetchResolves \<lparr> status = 200, body = Parsed (JStr ''about Alpha'') \<rparr>]
       (JStr ''about Alpha'')
   \<and> (30000::int) - 40 < 60000
   \<and> reply (handler
         \<lparr> now = 30000, signals = [], later = 30000,
           abortText = ''The user aborted a request.'',
           nullReadText = ''Cannot read properties of null'',
                  toPrimitiveText = ''Cannot convert object to primitive value'' \<rparr>
         (cache_after (handler
            \<lparr> now = 0,
              signals = [FetchResolves \<lparr> status = 200, body = Parsed (JStr ''about Alpha'') \<rparr>],
              later = 40, abortText = ''The user aborted a request.'',
              nullReadText = ''Cannot read properties of null'',
                  toPrimitiveText = ''Cannot convert object to primitive value'' \<rparr>
            Map.empty
            \<lparr> action = ''ANALYZE_WITH_CUAD'', query = [], nResults = None,
              documentText = ''This Agreement is made between Alpha Ltd and Beta Inc. Alpha shall pay the rent.'',
              question = None \<rparr>))
         \<lparr> action = ''ANALYZE_WITH_CUAD'', query = [], nResults = None,
           documentText = ''This Agreement is made between Alpha Ltd and Beta Inc. Beta shall keep the records.'',
           question = None \<rparr>)
     = Some (JStr ''about Alpha'')"
proof -
  let ?e1 = "\<lparr> now = 0,
              signals = [FetchResolves \<lparr> status = 200, body = Parsed (JStr ''about Alpha'') \<rparr>],
              later = 40, abortText = ''The user aborted a request.'',
              nullReadText = ''Cannot read properties of null'',
                  toPrimitiveText = ''Cannot convert object to primitive value'' \<rparr>"
  let ?e2 = "\<lparr> now = 30000, signals = [], later = 30000,
           abortText = ''The user aborted a request.'',
           nullReadText = ''Cannot read properties of null'',
                  toPrimitiveText = ''Cannot convert object to primitive value'' \<rparr>"
  let ?rq1 = "\<lparr> action = ''ANALYZE_WITH_CUAD'', query = [], nResults = None,
              documentText = ''This Agreement is made between Alpha Ltd and Beta Inc. Alpha shall pay the rent.'',
              question = None \<rparr>"
  let ?rq2 = "\<lparr> action = ''ANALYZE_WITH_CUAD'', query = [], nResults = None,
           documentText = ''This Agreement is made between Alpha Ltd and Beta Inc. Beta shall keep the records.'',
           question = None \<rparr>"
  let ?c2 = "cache_after (handler ?e1 Map.empty ?rq1)"
  have p: "take 50 ''This Agreement is made between Alpha Ltd and Beta Inc. Beta shall keep the records.''
     = take 50 ''This Agreement is made between Alpha Ltd and Beta Inc. Alpha shall pay the rent.''"
    by simp
  have ne: "''This Agreement is made between Alpha Ltd and Beta Inc. Beta shall keep the records.''
     \<noteq> ''This Agreement is made between Alpha Ltd and Beta Inc. Alpha shall pay the rent.''"
    by simp
  have f0: "fetched [FetchResolves \<lparr> status = 200, body = Parsed (JStr ''about Alpha'') \<rparr>]
       (JStr ''about Alpha'')"
    by (simp add: ok_def)
  have w: "(30000::int) - 40 < 60000" by simp
  have a1: "action ?rq1 = ''ANALYZE_WITH_CUAD''" by simp
  have a2: "action ?rq2 = ''ANALYZE_WITH_CUAD''" by simp
  have p': "take 50 (documentText ?rq2) = take 50 (documentText ?rq1)" using p by simp
  have q: "question ?rq2 = question ?rq1" by simp
  note t = analyze_key_from_document_prefix
    [of ?rq1 ?rq2 Map.empty ?e1 "JStr ''about Alpha''" ?c2 ?e2, OF a1 a2 p' q]
  have hyps: "cached_fresh Map.empty (cache_key ?rq1) (now ?e1) = None
          \<and> fetched (signals ?e1) (JStr ''about Alpha'')
          \<and> ?c2 (cache_key ?rq1) = cache_after (handler ?e1 Map.empty ?rq1) (cache_key ?rq1)
          \<and> now ?e2 - later ?e1 < 60000"
    using f0 by (simp add: empty_cache_miss)
  from t hyps have "reply (handler ?e2 ?c2 ?rq2) = Some (JStr ''about Alpha'')"
    by blast
  with p ne f0 w show ?thesis by blast
qed

section \<open>Failed calls and the cache\<close>

text \<open>
  A request with one of the four caching actions that finds no fresh entry and whose
  backend call succeeds stores exactly one entry: under its key, with the payload (wrapped
  by the health check) and the time of the store; every other key keeps what it had.
\<close>

lemma successful_call_stores_one_entry:
  assumes act: "action rq = ''CHECK_CUAD_HEALTH'' \<or> action rq = ''SEARCH_CUAD''
                \<or> action rq = ''ANALYZE_WITH_CUAD'' \<or> action rq = ''GET_ENHANCED_RESPONSE''"
    and miss: "cached_fresh c (cache_key rq) (now e) = None"
    and success: "fetched (signals e) d"
  shows "cache_writes (trace (handler e c rq)) = [cache_key rq]
       \<and> cache_after (handler e c rq) (cache_key rq) =
           Some \<lparr> data = (if action rq = ''CHECK_CUAD_HEALTH''
                           then JObj [(''status'', JStr ''healthy''), (''data'', d)] else d),
                  timestamp = later e \<rparr>
       \<and> (\<forall>k. k \<noteq> cache_key rq \<longrightarrow> cache_after (handler e c rq) k = c k)"
proof -
  consider (h) "action rq = ''CHECK_CUAD_HEALTH''" | (s) "action rq = ''SEARCH_CUAD''"
    | (a) "action rq = ''ANALYZE_WITH_CUAD''" | (x) "action rq = ''GET_ENHANCED_RESPONSE''"
    using act by blast
  then show ?thesis
  proof cases
    case h
    have k: "cache_key rq = ''health_check''" using h by (simp add: cache_key_def)
    have m: "cached_fresh c ''health_check'' (now e) = None" using miss k by simp
    have att: "health_attempt (signals e) = Some (Inr d)" using success by (rule fetched_health)
    show ?thesis
      using h by (simp add: handler_health k health_fetches [OF m att] cache_set_def)
  next
    case s
    have k: "cache_key rq = search_key (query rq) (nResults_or_3 (nResults rq))"
      using s by (simp add: cache_key_def)
    have m: "cached_fresh c (search_key (query rq) (nResults_or_3 (nResults rq))) (now e) = None"
      using miss k by simp
    have att: "checked_attempt (signals e) = Some (Inr d)" using success by (rule fetched_checked)
    show ?thesis
      using s by (simp add: handler_search k search_fetches [OF m att] cache_set_def)
  next
    case a
    have k: "cache_key rq = analyze_key (documentText rq) (question rq)"
      using a by (simp add: cache_key_def)
    have m: "cached_fresh c (analyze_key (documentText rq) (question rq)) (now e) = None"
      using miss k by simp
    have att: "checked_attempt (signals e) = Some (Inr d)" using success by (rule fetched_checked)
    show ?thesis
      using a by (simp add: handler_analyze k analyze_fetches [OF m att] cache_set_def)
  next
    case x
    have k: "cache_key rq = analyze_key (documentText rq) (question rq)"
      using x by (simp add: cache_key_def)
    have m: "cached_fresh c (analyze_key (documentText rq) (question rq)) (now e) = None"
      using miss k by simp
    have att: "checked_attempt (signals e) = Some (Inr d)" using success by (rule fetched_checked)
    show ?thesis
      using x by (simp add: handler_enhanced k analyze_fetches [OF m att] cache_set_def)
  qed
qed

text \<open>
  C4. Every successful backend call writes exactly one cache entry and a failed backend
  call leaves the cache unchanged. The script does not keep the second half in the health
  check. With the cache empty, the backend answers the health check with status 503 and
  the JSON body \<^verbatim>\<open>{"detail": "Service Unavailable"}\<close>: the call has failed, yet the handler
  answers \<^verbatim>\<open>{status: 'healthy', data}\<close> and stores that answer under \<^verbatim>\<open>health_check\<close>, and
  30 seconds later, with the backend unreachable, a health check is still answered
  \<^verbatim>\<open>healthy\<close> from the cache without a call. A search answered with the same response
  goes to its \<^verbatim>\<open>catch\<close> block, answers with the fallback clauses and leaves the cache
  empty, as \<^verbatim>\<open>if (!response.ok) throw\<close> in \<^verbatim>\<open>searchCUADSimple\<close> and \<^verbatim>\<open>analyzeSimple\<close> has it.
\<close>

theorem health_check_caches_failed_call:
  "bad_status
     [FetchResolves \<lparr> status = 503,
                      body = Parsed (JObj [(''detail'', JStr ''Service Unavailable'')]) \<rparr>]
   \<and> reply (handler
         \<lparr> now = 0,
           signals = [FetchResolves \<lparr> status = 503,
                        body = Parsed (JObj [(''detail'', JStr ''Service Unavailable'')]) \<rparr>],
           later = 40, abortText = ''The user aborted a request.'',
           nullReadText = ''Cannot read properties of null'',
           toPrimitiveText = ''Cannot convert object to primitive value'' \<rparr>
         Map.empty
         \<lparr> action = ''CHECK_CUAD_HEALTH'', query = [], nResults = None, documentText = [],
           question = None \<rparr>)
     = Some (JObj [(''status'', JStr ''healthy''),
                   (''data'', JObj [(''detail'', JStr ''Service Unavailable'')])])
   \<and> cache_writes (trace (handler
         \<lparr> now = 0,
           signals = [FetchResolves \<lparr> status = 503,
                        body = Parsed (JObj [(''detail'', JStr ''Service Unavailable'')]) \<rparr>],
           later = 40, abortText = ''The user aborted a request.'',
           nullReadText = ''Cannot read properties of null'',
           toPrimitiveText = ''Cannot convert object to primitive value'' \<rparr>
         Map.empty
         \<lparr> action = ''CHECK_CUAD_HEALTH'', query = [], nResults = None, documentText = [],
           question = None \<rparr>)) = [''health_check'']
   \<and> cache_after (handler
         \<lparr> now = 0,
           signals = [FetchResolves \<lparr> status = 503,
                        body = Parsed (JObj [(''detail'', JStr ''Service Unavailable'')]) \<rparr>],
           later = 40, abortText = ''The user aborted a request.'',
           nullReadText = ''Cannot read properties of null'',
           toPrimitiveText = ''Cannot convert object to primitive value'' \<rparr>
         Map.empty
         \<lparr> action = ''CHECK_CUAD_HEALTH'', query = [], nResults = None, documentText = [],
           question = None \<rparr>) ''health_check''
     = Some \<lparr> data = JObj [(''status'', JStr ''healthy''),
                            (''data'', JObj [(''detail'', JStr ''Service Unavailable'')])],
              timestamp = 40 \<rparr>
   \<and> reply (handler
         \<lparr> now = 30000, signals = [TimerFires], later = 40000,
           abortText = ''The user aborted a request.'',
           nullReadText = ''Cannot read properties of null'',
           toPrimitiveText = ''Cannot convert object to primitive value'' \<rparr>
         (cache_after (handler
            \<lparr> now = 0,
              signals = [FetchResolves \<lparr> status = 503,
                           body = Parsed (JObj [(''detail'', JStr ''Service Unavailable'')]) \<rparr>],
              later = 40, abortText = ''The user aborted a request.'',
              nullReadText = ''Cannot read properties of null'',
              toPrimitiveText = ''Cannot convert object to primitive value'' \<rparr>
            Map.empty
            \<lparr> action = ''CHECK_CUAD_HEALTH'', query = [], nResults = None, documentText = [],
              question = None \<rparr>))
         \<lparr> action = ''CHECK_CUAD_HEALTH'', query = [], nResults = None, documentText = [],
           question = None \<rparr>)
     = Some (JObj [(''status'', JStr ''healthy''),
                   (''data'', JObj [(''detail'', JStr ''Service Unavailable'')])])
   \<and> handler
         \<lparr> now = 0,
           signals = [FetchResolves \<lparr> status = 503,
                        body = Parsed (JObj [(''detail'', JStr ''Service Unavailable'')]) \<rparr>],
           later = 40, abortText = ''The user aborted a request.'',
           nullReadText = ''Cannot read properties of null'',
           toPrimitiveText = ''Cannot convert object to primitive value'' \<rparr>
         Map.empty
         \<lparr> action = ''SEARCH_CUAD'', query = ''confidential'', nResults = Some 3,
           documentText = [], question = None \<rparr>
     = \<lparr> reply = Some (JArr [clause_json (sampleClauses ! 0)]),
         cache_after = Map.empty,
         trace = [CacheGet (search_key ''confidential'' 3),
                  NetCall \<lparr> url = CUAD_API_URL @ ''/search'', http_method = ''POST'',
                            payload = Some (JObj [(''query'', JStr ''confidential''),
                                                  (''n_results'', JInt 3),
                                                  (''min_similarity'', JDec ''0.2'')]) \<rparr>] \<rparr>"
proof -
  let ?resp = "\<lparr> status = 503,
                body = Parsed (JObj [(''detail'', JStr ''Service Unavailable'')]) \<rparr>"
  let ?e = "\<lparr> now = 0, signals = [FetchResolves ?resp],
           later = 40, abortText = ''The user aborted a request.'',
           nullReadText = ''Cannot read properties of null'',
           toPrimitiveText = ''Cannot convert object to primitive value'' \<rparr>"
  let ?e2 = "\<lparr> now = 30000, signals = [TimerFires], later = 40000,
           abortText = ''The user aborted a request.'',
           nullReadText = ''Cannot read properties of null'',
           toPrimitiveText = ''Cannot convert object to primitive value'' \<rparr>"
  let ?hq = "\<lparr> action = ''CHECK_CUAD_HEALTH'', query = [], nResults = None, documentText = [],
           question = None \<rparr>"
  let ?sq = "\<lparr> action = ''SEARCH_CUAD'', query = ''confidential'', nResults = Some 3,
           documentText = [], question = None \<rparr>"
  let ?healthy = "JObj [(''status'', JStr ''healthy''),
                        (''data'', JObj [(''detail'', JStr ''Service Unavailable'')])]"
  have bad: "bad_status [FetchResolves ?resp]" by (simp add: ok_def)
  have att: "health_attempt (signals ?e)
               = Some (Inr (JObj [(''detail'', JStr ''Service Unavailable'')]))"
    by (simp add: health_attempt_cases read_json_def)
  have m: "cached_fresh Map.empty ''health_check'' (now ?e) = None" by (rule empty_cache_miss)
  have first: "handler ?e Map.empty ?hq =
      \<lparr> reply = Some ?healthy,
        cache_after = cache_set Map.empty ''health_check'' ?healthy 40,
        trace = [CacheGet ''health_check'',
                 NetCall \<lparr> url = CUAD_API_URL @ ''/health'', http_method = ''GET'',
                           payload = None \<rparr>,
                 CacheSet ''health_check''] \<rparr>"
    using health_fetches [OF m att] by (simp add: handler_health)
  have 1: "reply (handler ?e Map.empty ?hq) = Some ?healthy" by (simp only: first) simp
  have 2: "cache_writes (trace (handler ?e Map.empty ?hq)) = [''health_check'']"
    by (simp only: first) simp
  have 3: "cache_after (handler ?e Map.empty ?hq) ''health_check''
             = Some \<lparr> data = ?healthy, timestamp = 40 \<rparr>"
    by (simp only: first) (simp add: cache_set_def)
  have "now ?e2 - 40 < 60000" by simp
  with health_again [of "cache_after (handler ?e Map.empty ?hq)" ?healthy 40 ?e2] 3
  have "checkCUADHealth ?e2 (cache_after (handler ?e Map.empty ?hq)) =
          \<lparr> reply = Some ?healthy, cache_after = cache_after (handler ?e Map.empty ?hq),
            trace = [CacheGet ''health_check''] \<rparr>"
    by blast
  then have 4: "reply (handler ?e2 (cache_after (handler ?e Map.empty ?hq)) ?hq) = Some ?healthy"
    by (simp add: handler_health)
  have satt: "checked_attempt (signals ?e) = Some (Inl (ApiError 503))"
    by (simp add: checked_attempt_cases ok_def)
  have sm: "cached_fresh Map.empty (search_key ''confidential'' 3) (now ?e) = None"
    by (rule empty_cache_miss)
  have 5: "handler ?e Map.empty ?sq =
      \<lparr> reply = Some (JArr [clause_json (sampleClauses ! 0)]),
        cache_after = Map.empty,
        trace = [CacheGet (search_key ''confidential'' 3),
                 NetCall \<lparr> url = CUAD_API_URL @ ''/search'', http_method = ''POST'',
                           payload = Some (JObj [(''query'', JStr ''confidential''),
                                                 (''n_results'', JInt 3),
                                                 (''min_similarity'', JDec ''0.2'')]) \<rparr>] \<rparr>"
    using search_fails [OF sm satt]
    by (simp add: handler_search nResults_or_3_def fallback_confidential)
  show ?thesis by (intro conjI bad 1 2 3 4 5)
qed

end
